theory Spec2Isabelle
  imports Main "HOL-Library.Word"
begin

unbundle bit_operations_syntax

section \<open>Shared data model\<close>

text \<open>
  Numbers of the Sieve language (\<open>sieve_number_t\<close>) and points in time (\<open>time_t\<close>) are
  64-bit machine integers; their typedefs live in headers that are not part of the
  sources, so the width is fixed here once. All arithmetic on them wraps.
\<close>

type_synonym sieve_number_t = "64 word"
type_synonym time_t = "64 word"

subsection \<open>Observable effects\<close>

text \<open>
  Calls that only produce output (log lines, trace lines, what is written to the SMTP
  stream, calls into the host's duplicate store) are recorded, in order, as events. An
  argument that the C code passes through a library formatter is recorded as the call,
  not as its result: \<open>Sanitized s n\<close> stands for \<open>str_sanitize(s, n)\<close>. A C string that
  may be \<open>NULL\<close> is a \<open>string option\<close>.
\<close>

datatype out_arg =
    Str "string option"
  | Sanitized "string option" nat
  | New_message_id
  | Message_date time_t
  | Implementation_name

datatype location = No_location | Location string | Script_line nat

datatype event =
    Runtime_trace string
  | Runtime_trace_error string
  | Runtime_warning string
  | Runtime_error location string "out_arg list"
  | Result_log string "out_arg list"
  | Result_warning string
  | Result_error string "out_arg list"
  | Smtp_open "string option"
  | Smtp_header string string "out_arg list"
  | Smtp_printf string "out_arg list"
  | Smtp_close nat
  | Duplicate_check string "string option"
  | Duplicate_mark string "string option" time_t
  | Stdout string

fun is_smtp_event :: "event \<Rightarrow> bool" where
  "is_smtp_event (Smtp_open _) = True"
| "is_smtp_event (Smtp_header _ _ _) = True"
| "is_smtp_event (Smtp_printf _ _) = True"
| "is_smtp_event (Smtp_close _) = True"
| "is_smtp_event _ = False"

fun is_duplicate_check :: "event \<Rightarrow> bool" where
  "is_duplicate_check (Duplicate_check _ _) = True"
| "is_duplicate_check _ = False"

fun is_duplicate_mark :: "event \<Rightarrow> bool" where
  "is_duplicate_mark (Duplicate_mark _ _ _) = True"
| "is_duplicate_mark _ = False"

subsection \<open>Execution status\<close>

text \<open>
  The status codes of \<open>enum sieve_exec_status\<close>. An operation's \<open>execute\<close> returns
  an \<open>int\<close>: one of these codes, or the truth value of a C comparison (1 or 0).
\<close>

definition SIEVE_EXEC_OK :: int where "SIEVE_EXEC_OK = 1"
definition SIEVE_EXEC_FAILURE :: int where "SIEVE_EXEC_FAILURE = 0"
definition SIEVE_EXEC_BIN_CORRUPT :: int where "SIEVE_EXEC_BIN_CORRUPT = - 1"

subsection \<open>The binary and its typed reads\<close>

text \<open>
  The objects an operand can name: the comparators, match types and address parts that
  the address test refers to (\<open>i_octet_comparator\<close>, \<open>is_match_type\<close>,
  \<open>all_address_part\<close>) and their siblings of the spec's section 4.6.
\<close>

datatype sieve_comparator = i_octet_comparator | i_ascii_casemap_comparator
datatype sieve_match_type = is_match_type | contains_match_type | matches_match_type
datatype sieve_address_part = all_address_part | local_address_part | domain_address_part

text \<open>
  Modelled from the spec: the binary's read primitives (\<open>sieve_operand_optional_read\<close>,
  \<open>sieve_opr_number_read\<close> and the others are declared in headers that the sources
  include and are defined in none of them). The spec gives them as "symmetric
  \<open>read_*\<close> returning success/failure plus advancing a cursor". The binary is the
  sequence of items the emitters wrote; a typed read at an address succeeds exactly when
  the item there has the class asked for, and then moves the address past it.
\<close>

datatype operand =
    Opr_optional
  | Opr_code int
  | Opr_source_line nat
  | Opr_number sieve_number_t
  | Opr_string string
  | Opr_stringlist "string list"
  | Opr_comparator sieve_comparator
  | Opr_match_type sieve_match_type
  | Opr_address_part sieve_address_part

type_synonym sieve_binary = "operand list"
type_synonym sieve_size_t = nat

definition sieve_code_source_line_read ::
  "sieve_binary \<Rightarrow> sieve_size_t \<Rightarrow> (nat \<times> sieve_size_t) option" where
  "sieve_code_source_line_read sbin address =
     (case drop address sbin of
        Opr_source_line n # _ \<Rightarrow> Some (n, Suc address)
      | _ \<Rightarrow> None)"

definition sieve_operand_optional_present ::
  "sieve_binary \<Rightarrow> sieve_size_t \<Rightarrow> bool \<times> sieve_size_t" where
  "sieve_operand_optional_present sbin address =
     (case drop address sbin of
        Opr_optional # _ \<Rightarrow> (True, Suc address)
      | _ \<Rightarrow> (False, address))"

definition sieve_operand_optional_read ::
  "sieve_binary \<Rightarrow> sieve_size_t \<Rightarrow> (int \<times> sieve_size_t) option" where
  "sieve_operand_optional_read sbin address =
     (case drop address sbin of
        Opr_code c # _ \<Rightarrow> Some (c, Suc address)
      | _ \<Rightarrow> None)"

definition sieve_opr_number_read ::
  "sieve_binary \<Rightarrow> sieve_size_t \<Rightarrow> (sieve_number_t \<times> sieve_size_t) option" where
  "sieve_opr_number_read sbin address =
     (case drop address sbin of
        Opr_number n # _ \<Rightarrow> Some (n, Suc address)
      | _ \<Rightarrow> None)"

definition sieve_opr_string_read ::
  "sieve_binary \<Rightarrow> sieve_size_t \<Rightarrow> (string \<times> sieve_size_t) option" where
  "sieve_opr_string_read sbin address =
     (case drop address sbin of
        Opr_string s # _ \<Rightarrow> Some (s, Suc address)
      | _ \<Rightarrow> None)"

definition sieve_opr_stringlist_read ::
  "sieve_binary \<Rightarrow> sieve_size_t \<Rightarrow> (string list \<times> sieve_size_t) option" where
  "sieve_opr_stringlist_read sbin address =
     (case drop address sbin of
        Opr_stringlist ss # _ \<Rightarrow> Some (ss, Suc address)
      | _ \<Rightarrow> None)"

subsection \<open>Actions and the result list\<close>

text \<open>
  \<open>struct sieve_action\<close> (the action object) carries a name and flags next to its hooks;
  the hooks are the functions modelled below. \<open>SIEVE_ACTFLAG_SENDS_RESPONSE\<close> is one
  bit of the flag word, declared in a header outside the sources.
\<close>

record sieve_action =
  name :: string
  flags :: "32 word"

definition SIEVE_ACTFLAG_SENDS_RESPONSE :: "32 word" where
  "SIEVE_ACTFLAG_SENDS_RESPONSE = 2"

record act_vacation_context =
  reason :: string
  days :: sieve_number_t
  subject :: "string option"
  handle :: string
  mime :: bool
  from_address :: "string option"
  from_normalized :: "string option"
  addresses :: "string list option"

record act_duplicate_mark_data =
  mark_handle :: "string option"
  period :: "32 word"
  hash :: string
  last :: bool

datatype action_context =
    Vacation_context act_vacation_context
  | Duplicate_mark_context act_duplicate_mark_data
  | Other_context

record sieve_action_data =
  action :: sieve_action
  location :: string
  act_context :: action_context
  executed :: bool

type_synonym sieve_result = "sieve_action_data list"

text \<open>
  The arguments of one \<open>sieve_result_add_action\<close> call. The function itself belongs to
  the result engine, which is not among the sources: the operations below take it as a
  parameter that maps the result and the call to a return code and the new result.
\<close>

record add_action_call =
  call_action :: sieve_action
  call_source_line :: "nat option"
  call_context :: action_context

type_synonym add_action_fn = "sieve_result \<Rightarrow> add_action_call \<Rightarrow> int \<times> sieve_result"

section \<open>The vacation command (lib-sieve/plugins/vacation/cmd-vacation.c)\<close>

subsection \<open>Tag validation\<close>

datatype sieve_ast_argument =
    SAAT_NUMBER sieve_number_t
  | SAAT_STRING string
  | SAAT_STRING_LIST "string list"
  | SAAT_TAG string

text \<open>
  A command's arguments are a linked list; \<open>*arg\<close> is a cursor into it. The model keeps
  the list and the cursor's index (an index equal to the length is the \<open>NULL\<close> cursor).
  \<open>sieve_ast_arguments_detach(*arg, 1)\<close> unlinks the argument under the cursor and
  returns its successor, which then sits at the same index.
\<close>

definition sieve_ast_arguments_detach ::
  "sieve_ast_argument list \<Rightarrow> nat \<Rightarrow> sieve_ast_argument list" where
  "sieve_ast_arguments_detach args i = take i args @ drop (Suc i) args"

text \<open>
  Modelled from the spec: \<open>sieve_validate_tag_parameter\<close> of the validator (not among
  the sources), the spec's \<open>validate_tag_parameter(cmd, tag, value_arg, type)\<close>: it
  accepts exactly when the parameter exists and has the required type.
\<close>

definition is_number_argument :: "sieve_ast_argument \<Rightarrow> bool" where
  "is_number_argument a = (case a of SAAT_NUMBER _ \<Rightarrow> True | _ \<Rightarrow> False)"

definition sieve_validate_tag_parameter_number ::
  "sieve_ast_argument list \<Rightarrow> nat \<Rightarrow> bool" where
  "sieve_validate_tag_parameter_number args i =
     (i < length args \<and> is_number_argument (args ! i))"

definition sieve_ast_argument_number :: "sieve_ast_argument \<Rightarrow> sieve_number_t" where
  "sieve_ast_argument_number a = (case a of SAAT_NUMBER n \<Rightarrow> n | _ \<Rightarrow> 0)"

text \<open>
  \<open>cmd_vacation_validate_number_tag\<close>: the cursor \<open>i\<close> is on the \<open>:days\<close> tag. The
  result is the C return value, the argument list as the validator leaves it, and the
  cursor.
\<close>

definition cmd_vacation_validate_number_tag ::
  "sieve_ast_argument list \<Rightarrow> nat \<Rightarrow> bool \<times> sieve_ast_argument list \<times> nat" where
  "cmd_vacation_validate_number_tag args i =
     (let args1 = sieve_ast_arguments_detach args i in
      if \<not> sieve_validate_tag_parameter_number args1 i then (False, args1, i)
      else
        let args2 =
              (if sieve_ast_argument_number (args1 ! i) = 0
               then args1[i := SAAT_NUMBER 1] else args1)
        in (True, args2, Suc i))"

subsection \<open>Codes for optional arguments\<close>

definition OPT_END :: int where "OPT_END = 0"
definition OPT_DAYS :: int where "OPT_DAYS = 1"
definition OPT_SUBJECT :: int where "OPT_SUBJECT = 2"
definition OPT_FROM :: int where "OPT_FROM = 3"
definition OPT_ADDRESSES :: int where "OPT_ADDRESSES = 4"
definition OPT_MIME :: int where "OPT_MIME = 5"

lemmas OPT_defs =
  OPT_END_def OPT_DAYS_def OPT_SUBJECT_def OPT_FROM_def OPT_ADDRESSES_def OPT_MIME_def

definition act_vacation :: sieve_action where
  "act_vacation = \<lparr> name = ''vacation'', flags = SIEVE_ACTFLAG_SENDS_RESPONSE \<rparr>"

subsection \<open>Code execution\<close>

text \<open>The local variables that the optional-operand loop of the operation assigns.\<close>

record vacation_locals =
  loc_days :: sieve_number_t
  loc_mime :: bool
  loc_addresses :: "string list option"
  loc_subject :: "string option"
  loc_from :: "string option"

definition vacation_locals_init :: vacation_locals where
  "vacation_locals_init =
     \<lparr> loc_days = 7, loc_mime = False, loc_addresses = None,
       loc_subject = None, loc_from = None \<rparr>"

lemma sieve_operand_optional_read_adv:
  "sieve_operand_optional_read sbin a = Some (c, a') \<Longrightarrow> a' = Suc a \<and> a < length sbin"
  by (cases "a < length sbin")
     (auto simp: sieve_operand_optional_read_def split: list.splits operand.splits)

lemma sieve_opr_number_read_adv:
  "sieve_opr_number_read sbin a = Some (c, a') \<Longrightarrow> a' = Suc a \<and> a < length sbin"
  by (cases "a < length sbin")
     (auto simp: sieve_opr_number_read_def split: list.splits operand.splits)

lemma sieve_opr_string_read_adv:
  "sieve_opr_string_read sbin a = Some (c, a') \<Longrightarrow> a' = Suc a \<and> a < length sbin"
  by (cases "a < length sbin")
     (auto simp: sieve_opr_string_read_def split: list.splits operand.splits)

lemma sieve_opr_stringlist_read_adv:
  "sieve_opr_stringlist_read sbin a = Some (c, a') \<Longrightarrow> a' = Suc a \<and> a < length sbin"
  by (cases "a < length sbin")
     (auto simp: sieve_opr_stringlist_read_def split: list.splits operand.splits)

text \<open>
  The \<open>while ( opt_code != 0 )\<close> loop of \<open>ext_vacation_operation_execute\<close>. \<open>Inl\<close> is
  the early \<open>return SIEVE_EXEC_BIN_CORRUPT\<close> with the trace line written before it;
  \<open>Inr\<close> is the normal exit of the loop with the locals and the address reached.
\<close>

function vacation_optionals_loop ::
  "sieve_binary \<Rightarrow> sieve_size_t \<Rightarrow> vacation_locals
     \<Rightarrow> event list + (vacation_locals \<times> sieve_size_t)" where
  "vacation_optionals_loop sbin address l =
     (case sieve_operand_optional_read sbin address of
        None \<Rightarrow> Inl [Runtime_trace_error ''invalid optional operand'']
      | Some (opt_code, a1) \<Rightarrow>
          if opt_code = 0 then Inr (l, a1)
          else if opt_code = OPT_DAYS then
            (case sieve_opr_number_read sbin a1 of
               None \<Rightarrow> Inl [Runtime_trace_error ''invalid days operand'']
             | Some (d, a2) \<Rightarrow>
                 vacation_optionals_loop sbin a2
                   (l\<lparr> loc_days := (if d = 0 then 1 else d) \<rparr>))
          else if opt_code = OPT_SUBJECT then
            (case sieve_opr_string_read sbin a1 of
               None \<Rightarrow> Inl [Runtime_trace_error ''invalid subject operand'']
             | Some (s, a2) \<Rightarrow>
                 vacation_optionals_loop sbin a2 (l\<lparr> loc_subject := Some s \<rparr>))
          else if opt_code = OPT_FROM then
            (case sieve_opr_string_read sbin a1 of
               None \<Rightarrow> Inl [Runtime_trace_error ''invalid from address operand'']
             | Some (s, a2) \<Rightarrow>
                 vacation_optionals_loop sbin a2 (l\<lparr> loc_from := Some s \<rparr>))
          else if opt_code = OPT_ADDRESSES then
            (case sieve_opr_stringlist_read sbin a1 of
               None \<Rightarrow> Inl [Runtime_trace_error ''invalid addresses operand'']
             | Some (ss, a2) \<Rightarrow>
                 vacation_optionals_loop sbin a2 (l\<lparr> loc_addresses := Some ss \<rparr>))
          else if opt_code = OPT_MIME then
            vacation_optionals_loop sbin a1 (l\<lparr> loc_mime := True \<rparr>)
          else Inl [Runtime_trace_error ''unknown optional operand''])"
  by pat_completeness auto
termination
  by (relation "measure (\<lambda>(sbin, address, l). length sbin - address)")
     (auto dest!: sieve_operand_optional_read_adv sieve_opr_number_read_adv
        sieve_opr_string_read_adv sieve_opr_stringlist_read_adv)

declare vacation_optionals_loop.simps [simp del]

text \<open>
  \<open>sieve_address_normalize\<close> (of sieve-address.h, not among the sources) is a parameter:
  it returns the normalized address (\<open>Inr\<close>) or \<open>NULL\<close> with an error text (\<open>Inl\<close>).
\<close>

type_synonym normalize_fn = "string \<Rightarrow> string + string"

text \<open>
  The operand section of \<open>ext_vacation_operation_execute\<close>: source line, optional
  operands, reason, handle. \<open>Inl\<close> is an early \<open>return SIEVE_EXEC_BIN_CORRUPT\<close>.
\<close>

definition ext_vacation_operation_read ::
  "sieve_binary \<Rightarrow> sieve_size_t
     \<Rightarrow> event list + (nat \<times> vacation_locals \<times> string \<times> string \<times> sieve_size_t)" where
  "ext_vacation_operation_read sbin address =
     (case sieve_code_source_line_read sbin address of
        None \<Rightarrow> Inl [Runtime_trace_error ''invalid source line'']
      | Some (source_line, a1) \<Rightarrow>
          (case (let (present, a2) = sieve_operand_optional_present sbin a1 in
                 if present then vacation_optionals_loop sbin a2 vacation_locals_init
                 else Inr (vacation_locals_init, a2)) of
             Inl evs \<Rightarrow> Inl evs
           | Inr (l, a3) \<Rightarrow>
               (case sieve_opr_string_read sbin a3 of
                  None \<Rightarrow> Inl [Runtime_trace_error ''invalid reason operand'']
                | Some (reason_s, a4) \<Rightarrow>
                    (case sieve_opr_string_read sbin a4 of
                       None \<Rightarrow> Inl [Runtime_trace_error ''invalid handle operand'']
                     | Some (handle_s, a5) \<Rightarrow>
                         Inr (source_line, l, reason_s, handle_s, a5)))))"

text \<open>
  The "perform operation" section up to the call of \<open>sieve_result_add_action\<close>: the
  trace line, the check of the \<open>:from\<close> address (an invalid one is reported and the
  operation goes on), and the action context that is handed to the result.
\<close>

definition ext_vacation_operation_perform ::
  "normalize_fn \<Rightarrow> nat \<Rightarrow> vacation_locals \<Rightarrow> string \<Rightarrow> string
     \<Rightarrow> add_action_call \<times> event list" where
  "ext_vacation_operation_perform sieve_address_normalize source_line l reason_s handle_s =
     (let norm = (case loc_from l of None \<Rightarrow> None
                  | Some f \<Rightarrow> Some (sieve_address_normalize f));
          from_norm = (case norm of Some (Inr n) \<Rightarrow> Some n | _ \<Rightarrow> None);
          evs = Runtime_trace ''VACATION action'' #
                (case (loc_from l, norm) of
                   (Some f, Some (Inl err)) \<Rightarrow>
                     [Runtime_error (Script_line source_line)
                        (''specified :from address '' @ [CHR 0x27] @ ''%s'' @ [CHR 0x27]
                          @ '' is invalid for vacation action: %s'')
                        [Sanitized (Some f) 128, Str (Some err)]]
                 | _ \<Rightarrow> []);
          act = \<lparr> reason = reason_s, days = loc_days l, subject = loc_subject l,
                  handle = handle_s, mime = loc_mime l, from_address = loc_from l,
                  from_normalized = from_norm, addresses = loc_addresses l \<rparr>
      in (\<lparr> call_action = act_vacation, call_source_line = Some source_line,
             call_context = Vacation_context act \<rparr>, evs))"

text \<open>
  \<open>ext_vacation_operation_execute\<close>: the status returned, the result list afterwards
  and the events. The last line of the C function returns the truth value of
  \<open>sieve_result_add_action(...) >= 0\<close>.
\<close>

definition ext_vacation_operation_execute ::
  "add_action_fn \<Rightarrow> normalize_fn \<Rightarrow> sieve_binary \<Rightarrow> sieve_result \<Rightarrow> sieve_size_t
     \<Rightarrow> int \<times> sieve_result \<times> event list" where
  "ext_vacation_operation_execute add_action sieve_address_normalize sbin result address =
     (case ext_vacation_operation_read sbin address of
        Inl evs \<Rightarrow> (SIEVE_EXEC_BIN_CORRUPT, result, evs)
      | Inr (source_line, l, reason_s, handle_s, a5) \<Rightarrow>
          (let (call, evs) =
                 ext_vacation_operation_perform sieve_address_normalize source_line l
                   reason_s handle_s;
               (ret, result') = add_action result call
           in ((if ret \<ge> 0 then 1 else 0), result', evs)))"

text \<open>
  The layout of a well-formed optional-operand block, as the generator writes it: one
  \<open>(opt_code, operand)\<close> pair per tag (\<open>:mime\<close> has no operand).
\<close>

datatype vacation_optional =
    Days sieve_number_t
  | Subject string
  | From_address string
  | Addresses "string list"
  | Mime

fun emit_optional :: "vacation_optional \<Rightarrow> operand list" where
  "emit_optional (Days d) = [Opr_code OPT_DAYS, Opr_number d]"
| "emit_optional (Subject s) = [Opr_code OPT_SUBJECT, Opr_string s]"
| "emit_optional (From_address s) = [Opr_code OPT_FROM, Opr_string s]"
| "emit_optional (Addresses ss) = [Opr_code OPT_ADDRESSES, Opr_stringlist ss]"
| "emit_optional Mime = [Opr_code OPT_MIME]"

fun assign_optional :: "vacation_optional \<Rightarrow> vacation_locals \<Rightarrow> vacation_locals" where
  "assign_optional (Days d) l = l\<lparr> loc_days := (if d = 0 then 1 else d) \<rparr>"
| "assign_optional (Subject s) l = l\<lparr> loc_subject := Some s \<rparr>"
| "assign_optional (From_address s) l = l\<lparr> loc_from := Some s \<rparr>"
| "assign_optional (Addresses ss) l = l\<lparr> loc_addresses := Some ss \<rparr>"
| "assign_optional Mime l = l\<lparr> loc_mime := True \<rparr>"

text \<open>
  The days that claim C2 promises for a well-formed block, in the claim's own words: the
  operand of the last \<open>:days\<close> pair decides, a 0 there is replaced by 1 and any other
  number is kept; with no \<open>:days\<close> pair the days are the default of 7.
\<close>

fun days_operands :: "vacation_optional list \<Rightarrow> sieve_number_t list" where
  "days_operands [] = []"
| "days_operands (Days d # opts) = d # days_operands opts"
| "days_operands (_ # opts) = days_operands opts"

definition spec_vacation_days :: "vacation_optional list \<Rightarrow> sieve_number_t" where
  "spec_vacation_days opts =
     (if days_operands opts = [] then 7
      else if List.last (days_operands opts) = 0 then 1
      else List.last (days_operands opts))"

text \<open>
  What can go wrong at the head of the remaining block \<open>rest\<close>: the code there is
  unknown, or it is known and the operand after it does not decode.
\<close>

definition unknown_opt_code :: "int \<Rightarrow> bool" where
  "unknown_opt_code c =
     (c \<notin> {OPT_END, OPT_DAYS, OPT_SUBJECT, OPT_FROM, OPT_ADDRESSES, OPT_MIME})"

definition operand_undecodable :: "int \<Rightarrow> operand list \<Rightarrow> bool" where
  "operand_undecodable c rest =
     (if c = OPT_DAYS then (case rest of Opr_number _ # _ \<Rightarrow> False | _ \<Rightarrow> True)
      else if c = OPT_SUBJECT \<or> c = OPT_FROM then
        (case rest of Opr_string _ # _ \<Rightarrow> False | _ \<Rightarrow> True)
      else if c = OPT_ADDRESSES then
        (case rest of Opr_stringlist _ # _ \<Rightarrow> False | _ \<Rightarrow> True)
      else False)"

definition corrupt_block_head :: "operand list \<Rightarrow> bool" where
  "corrupt_block_head tail =
     (case tail of
        Opr_code c # rest \<Rightarrow> unknown_opt_code c \<or> operand_undecodable c rest
      | _ \<Rightarrow> True)"

subsection \<open>Runtime verification hooks of the vacation action\<close>

text \<open>
  \<open>act_vacation_check_duplicate\<close> and \<open>act_vacation_check_conflict\<close>: the return value
  and the runtime error reported, if any. \<open>act\<close> is the vacation action the hook belongs
  to, \<open>act_other\<close> the action it is compared with.
\<close>

definition act_vacation_check_duplicate ::
  "sieve_action_data \<Rightarrow> sieve_action_data \<Rightarrow> int \<times> event list" where
  "act_vacation_check_duplicate act act_other =
     (if \<not> executed act_other then
        (- 1, [Runtime_error (Location (location act))
                 (''duplicate vacation action not allowed ''
                    @ ''(previously triggered one was here: %s)'')
                 [Str (Some (location act_other))]])
      else (1, []))"


subsection \<open>The result engine\<close>










section \<open>The host environment\<close>

text \<open>
  \<open>struct sieve_script_env\<close>: the host's function pointers, \<open>None\<close> for \<open>NULL\<close>. What
  a host function returns is given by the function stored here; that it was called is
  recorded as an event. \<open>struct sieve_message_data\<close> carries the message; the mail
  handle answers header lookups (\<open>None\<close> for a negative return value of
  \<open>mail_get_headers\<close>).
\<close>

record sieve_script_env =
  username :: "string option"
  smtp_open :: "(string option \<Rightarrow> nat) option"
  smtp_close :: "(nat \<Rightarrow> bool) option"
  duplicate_check :: "(string \<Rightarrow> string option \<Rightarrow> bool) option"
  duplicate_mark :: "(string \<Rightarrow> string option \<Rightarrow> time_t \<Rightarrow> unit) option"

record mail =
  mail_get_headers :: "string \<Rightarrow> string list option"
  mail_get_headers_utf8 :: "string \<Rightarrow> string list option"

record sieve_message_data =
  msg_mail :: mail
  return_path :: "string option"
  to_address :: "string option"
  auth_user :: "string option"
  msg_id :: "string option"

text \<open>
  Faults of the C program that end the process: a failed \<open>i_assert\<close> and a \<open>NULL\<close>
  pointer handed to \<open>strcmp\<close>.
\<close>

datatype fault = Assert_failed | Null_dereference

text \<open>\<open>md5\<close> (of md5.h) is a parameter: the digest of the bytes fed to the context.\<close>

type_synonym md5_fn = "string \<Rightarrow> string"

section \<open>The vacation action at commit (cmd-vacation.c, continued)\<close>

subsection \<open>C string helpers\<close>

definition ascii_tolower :: "char \<Rightarrow> char" where
  "ascii_tolower c =
     (let n = (of_char c :: nat) in if 65 \<le> n \<and> n \<le> 90 then char_of (n + 32) else c)"

definition strcasecmp_eq :: "string \<Rightarrow> string \<Rightarrow> bool" where
  "strcasecmp_eq a b = (map ascii_tolower a = map ascii_tolower b)"

definition strncasecmp_eq :: "string \<Rightarrow> string \<Rightarrow> nat \<Rightarrow> bool" where
  "strncasecmp_eq a b n = (map ascii_tolower (take n a) = map ascii_tolower (take n b))"

definition strncmp_eq :: "string \<Rightarrow> string \<Rightarrow> nat \<Rightarrow> bool" where
  "strncmp_eq a b n = (take n a = take n b)"

fun strstr_found :: "string \<Rightarrow> string \<Rightarrow> bool" where
  "strstr_found [] needle = (needle = [])"
| "strstr_found (c # cs) needle =
     (take (length needle) (c # cs) = needle \<or> strstr_found cs needle)"

subsection \<open>Headers and addresses\<close>

definition list_headers :: "string list" where
  "list_headers =
     [''list-id'', ''list-owner'', ''list-subscribe'', ''list-post'',
      ''list-unsubscribe'', ''list-help'', ''list-archive'']"

definition my_address_headers :: "string list" where
  "my_address_headers =
     [''to'', ''cc'', ''bcc'', ''resent-to'', ''resent-cc'', ''resent-bcc'']"

definition is_system_address :: "string \<Rightarrow> bool" where
  "is_system_address address =
     (if strncasecmp_eq address ''MAILER-DAEMON'' 13 then True
      else if strncasecmp_eq address ''LISTSERV'' 8 then True
      else if strncasecmp_eq address ''majordomo'' 9 then True
      else if strstr_found address ''-request@'' then True
      else if strncmp_eq address ''owner-'' 6 then True
      else False)"

text \<open>
  \<open>message_address_parse\<close> (of message-address.h) is a parameter: the addresses of one header
  value, each with its mailbox and domain (\<open>None\<close> for \<open>NULL\<close>).
\<close>

record message_address =
  mailbox :: "string option"
  domain :: "string option"

type_synonym parse_fn = "string \<Rightarrow> message_address list"

text \<open>
  The inner loop of \<open>_contains_my_address\<close> over the addresses of one header, and the
  outer loop over the headers. \<open>Inl Assert_failed\<close> is the \<open>i_assert\<close> on an address
  with a domain and no mailbox.
\<close>

fun contains_my_address_in :: "message_address list \<Rightarrow> string \<Rightarrow> fault + bool" where
  "contains_my_address_in [] my_address = Inr False"
| "contains_my_address_in (addr # addrs) my_address =
     (case domain addr of
        None \<Rightarrow> contains_my_address_in addrs my_address
      | Some d \<Rightarrow>
          (case mailbox addr of
             None \<Rightarrow> Inl Assert_failed
           | Some m \<Rightarrow>
               if m @ ''@'' @ d = my_address then Inr True
               else contains_my_address_in addrs my_address))"

fun contains_my_address :: "parse_fn \<Rightarrow> string list \<Rightarrow> string \<Rightarrow> fault + bool" where
  "contains_my_address parse [] my_address = Inr False"
| "contains_my_address parse (h # hs) my_address =
     (case contains_my_address_in (parse h) my_address of
        Inl f \<Rightarrow> Inl f
      | Inr True \<Rightarrow> Inr True
      | Inr False \<Rightarrow> contains_my_address parse hs my_address)"

text \<open>
  The \<open>while ( !found && *my_address != NULL )\<close> loop over the \<open>:addresses\<close> of the
  action.
\<close>

fun contains_any_address :: "parse_fn \<Rightarrow> string list \<Rightarrow> string list \<Rightarrow> fault + bool" where
  "contains_any_address parse headers [] = Inr False"
| "contains_any_address parse headers (a # as) =
     (case contains_my_address parse headers a of
        Inl f \<Rightarrow> Inl f
      | Inr True \<Rightarrow> Inr True
      | Inr False \<Rightarrow> contains_any_address parse headers as)"

text \<open>
  The loop over \<open>_my_address_headers\<close>: \<open>Inr True\<close> when it leaves by \<open>break\<close> (the
  message names the user), \<open>Inr False\<close> when it runs to the end of the table.
\<close>

fun addressed_to_me ::
  "parse_fn \<Rightarrow> mail \<Rightarrow> string \<Rightarrow> string list option \<Rightarrow> string list \<Rightarrow> fault + bool" where
  "addressed_to_me parse m to_addr addrs [] = Inr False"
| "addressed_to_me parse m to_addr addrs (hdr # hdrs) =
     (case mail_get_headers_utf8 m hdr of
        Some (h # hs) \<Rightarrow>
          (case contains_my_address parse (h # hs) to_addr of
             Inl f \<Rightarrow> Inl f
           | Inr True \<Rightarrow> Inr True
           | Inr False \<Rightarrow>
               (case addrs of
                  None \<Rightarrow> addressed_to_me parse m to_addr addrs hdrs
                | Some as \<Rightarrow>
                    (case contains_any_address parse (h # hs) as of
                       Inl f \<Rightarrow> Inl f
                     | Inr True \<Rightarrow> Inr True
                     | Inr False \<Rightarrow> addressed_to_me parse m to_addr addrs hdrs)))
      | _ \<Rightarrow> addressed_to_me parse m to_addr addrs hdrs)"

subsection \<open>Sending the reply\<close>

definition crlf :: string where
  "crlf = [CHR 0x0D, CHR 0x0A]"

text \<open>
  \<open>act_vacation_send\<close>: the return value and the events. Every path returns \<open>TRUE\<close>.
\<close>

definition act_vacation_send ::
  "sieve_script_env \<Rightarrow> sieve_message_data \<Rightarrow> time_t \<Rightarrow> act_vacation_context
     \<Rightarrow> bool \<times> event list" where
  "act_vacation_send senv msgdata ioloop_time ctx =
     (case (smtp_open senv, smtp_close senv) of
        (Some sopen, Some sclose) \<Rightarrow>
          (let smtp_handle = sopen (return_path msgdata);
               refs = mail_get_headers (msg_mail msgdata) ''references'';
               first_ref = (case refs of Some (r # _) \<Rightarrow> Some r | _ \<Rightarrow> None);
               evs =
                 [Smtp_open (return_path msgdata),
                  Smtp_header ''X-Sieve'' ''%s'' [Implementation_name],
                  Smtp_header ''Message-ID'' ''%s'' [New_message_id],
                  Smtp_header ''Date'' ''%s'' [Message_date ioloop_time]]
                 @ [(case from_address ctx of
                       Some (c # cs) \<Rightarrow> Smtp_header ''From'' ''%s'' [Str (Some (c # cs))]
                     | _ \<Rightarrow> Smtp_header ''From'' ''<%s>'' [Str (to_address msgdata)])]
                 @ [Smtp_header ''To'' ''<%s>'' [Str (return_path msgdata)],
                    Smtp_header ''Subject'' ''%s'' [Sanitized (subject ctx) 256]]
                 @ (case msg_id msgdata of
                      Some i \<Rightarrow>
                        [Smtp_header ''In-Reply-To'' ''%s'' [Str (Some i)],
                         (case first_ref of
                            Some r \<Rightarrow> Smtp_header ''References'' ''%s'' [Str (Some (r @ '' '' @ i))]
                          | None \<Rightarrow> Smtp_header ''References'' ''%s'' [Str (Some i)])]
                    | None \<Rightarrow>
                        (case first_ref of
                           Some r \<Rightarrow> [Smtp_header ''References'' ''%s'' [Str (Some r)]]
                         | None \<Rightarrow> []))
                 @ [Smtp_header ''Auto-Submitted'' ''%s'' [Str (Some ''auto-replied (vacation)'')],
                    Smtp_header ''Precedence'' ''%s'' [Str (Some ''bulk'')],
                    Smtp_header ''MIME-Version'' ''%s'' [Str (Some ''1.0'')]]
                 @ (if \<not> mime ctx then
                      [Smtp_header ''Content-Type'' ''%s''
                         [Str (Some ''text/plain; charset=utf-8'')],
                       Smtp_header ''Content-Transfer-Encoding'' ''%s'' [Str (Some ''8bit'')],
                       Smtp_printf crlf []]
                    else [])
                 @ [Smtp_printf (''%s'' @ crlf) [Str (Some (reason ctx))],
                    Smtp_close smtp_handle]
           in if \<not> sclose smtp_handle then
                (True, evs @
                   [Result_error
                      (''failed to send vacation response to <%s> ''
                         @ ''(refer to server log for more information)'')
                      [Sanitized (return_path msgdata) 128]])
              else (True, evs))
      | _ \<Rightarrow> (True, [Result_warning ''vacation action has no means to send mail.'']))"

definition act_vacation_hash ::
  "md5_fn \<Rightarrow> string \<Rightarrow> act_vacation_context \<Rightarrow> string" where
  "act_vacation_hash md5 rpath vctx = md5 (rpath @ handle vctx)"

subsection \<open>Committing the action\<close>

text \<open>
  \<open>act_vacation_commit\<close> is one long function that returns early at each check. The
  model follows it in three pieces, each the function from one point of the C text to
  its end: from "Make sure we have a subject for our reply" (\<open>commit_send\<close>), from
  "Are we trying to respond to a mailing list ?" (\<open>commit_checks\<close>), and from the top.
  The result is a fault, or the return value, the action context (the commit may fill
  in the subject) and the events. \<open>dupl_hash\<close> is the local buffer of that name and
  \<open>ev_chk\<close> the events so far.
\<close>

definition commit_send ::
  "sieve_script_env \<Rightarrow> sieve_message_data \<Rightarrow> time_t \<Rightarrow> act_vacation_context
     \<Rightarrow> string \<Rightarrow> string \<Rightarrow> event list
     \<Rightarrow> fault + (bool \<times> act_vacation_context \<times> event list)" where
  "commit_send senv msgdata ioloop_time ctx rpath dupl_hash ev_chk =
     (let ctx' =
            (if subject ctx = None \<or> subject ctx = Some [] then
               (case mail_get_headers_utf8 (msg_mail msgdata) ''subject'' of
                  Some (h # hs) \<Rightarrow> ctx\<lparr> subject := Some (''Auto: '' @ h) \<rparr>
                | _ \<Rightarrow> ctx\<lparr> subject := Some ''Automated reply'' \<rparr>)
             else ctx);
          (sent, ev_send) = act_vacation_send senv msgdata ioloop_time ctx'
      in if sent then
           Inr (True, ctx', ev_chk @ ev_send @
             [Result_log ''sent vacation response to <%s>'' [Sanitized (Some rpath) 128]] @
             (case duplicate_mark senv of
                None \<Rightarrow> []
              | Some mark \<Rightarrow>
                  [Duplicate_mark dupl_hash (username senv)
                     (ioloop_time + days ctx' * (24 * 60 * 60))]))
         else Inr (False, ctx', ev_chk @ ev_send))"

definition commit_checks ::
  "parse_fn \<Rightarrow> sieve_script_env \<Rightarrow> sieve_message_data \<Rightarrow> time_t \<Rightarrow> act_vacation_context
     \<Rightarrow> string \<Rightarrow> string \<Rightarrow> string \<Rightarrow> event list
     \<Rightarrow> fault + (bool \<times> act_vacation_context \<times> event list)" where
  "commit_checks parse senv msgdata ioloop_time ctx rpath to_addr dupl_hash ev_chk =
     (let m = msg_mail msgdata in
      if list_ex (\<lambda>hdr. case mail_get_headers m hdr of
                           Some (h # hs) \<Rightarrow> True | _ \<Rightarrow> False) list_headers then
        Inr (True, ctx, ev_chk @
          [Result_log ''discarding vacation response to mailinglist recipient <%s>''
             [Sanitized (Some rpath) 128]])
      else if (case mail_get_headers m ''auto-submitted'' of
                 Some hs \<Rightarrow> list_ex (\<lambda>h. \<not> strcasecmp_eq h ''no'') hs
               | None \<Rightarrow> False) then
        Inr (True, ctx, ev_chk @
          [Result_log ''discardig vacation response to auto-submitted message from <%s>''
             [Sanitized (Some rpath) 128]])
      else
        (case (case mail_get_headers m ''precedence'' of
                 Some hs \<Rightarrow>
                   find (\<lambda>h. strcasecmp_eq h ''junk'' \<or> strcasecmp_eq h ''bulk''
                               \<or> strcasecmp_eq h ''list'') hs
               | None \<Rightarrow> None) of
           Some p \<Rightarrow>
             Inr (True, ctx, ev_chk @
               [Result_log ''discarding vacation response to precedence=%s message from <%s>''
                  [Str (Some p), Sanitized (Some rpath) 128]])
         | None \<Rightarrow>
             if is_system_address rpath then
               Inr (True, ctx, ev_chk @
                 [Result_log ''not sending vacation response to system address <%s>''
                    [Sanitized (Some rpath) 128]])
             else
               (case addressed_to_me parse m to_addr (addresses ctx) my_address_headers of
                  Inl f \<Rightarrow> Inl f
                | Inr False \<Rightarrow>
                    Inr (True, ctx, ev_chk @
                      [Result_log
                         (''discarding vacation response for message ''
                            @ ''implicitly delivered to <%s>'')
                         [Str (Some to_addr)]])
                | Inr True \<Rightarrow>
                    commit_send senv msgdata ioloop_time ctx rpath dupl_hash ev_chk)))"

text \<open>
  \<open>dupl_hash0\<close> is what the buffer \<open>dupl_hash\<close> holds before anything is written to it:
  it is passed on uninitialised when the host has no \<open>duplicate_check\<close>. A \<open>NULL\<close>
  \<open>to_address\<close> reaches \<open>strcmp\<close>.
\<close>

definition act_vacation_commit ::
  "md5_fn \<Rightarrow> parse_fn \<Rightarrow> sieve_script_env \<Rightarrow> sieve_message_data \<Rightarrow> time_t
     \<Rightarrow> act_vacation_context \<Rightarrow> string
     \<Rightarrow> fault + (bool \<times> act_vacation_context \<times> event list)" where
  "act_vacation_commit md5 parse senv msgdata ioloop_time ctx dupl_hash0 =
     (case return_path msgdata of
        None \<Rightarrow> Inr (True, ctx, [Result_log ''discarded vacation reply to <>'' []])
      | Some [] \<Rightarrow> Inr (True, ctx, [Result_log ''discarded vacation reply to <>'' []])
      | Some (c # cs) \<Rightarrow>
          (let rpath = c # cs in
           case to_address msgdata of
             None \<Rightarrow> Inl Null_dereference
           | Some to_addr \<Rightarrow>
               if rpath = to_addr then
                 Inr (True, ctx, [Result_log ''discarded vacation reply to own address'' []])
               else
                 (case duplicate_check senv of
                    None \<Rightarrow>
                      commit_checks parse senv msgdata ioloop_time ctx rpath to_addr
                        dupl_hash0 []
                  | Some chk \<Rightarrow>
                      (let dupl_hash = act_vacation_hash md5 rpath ctx;
                           ev_chk = [Duplicate_check dupl_hash (username senv)]
                       in if chk dupl_hash (username senv) then
                            Inr (True, ctx, ev_chk @
                              [Result_log ''discarded duplicate vacation response to <%s>''
                                 [Sanitized (Some rpath) 128]])
                          else
                            commit_checks parse senv msgdata ioloop_time ctx rpath to_addr
                              dupl_hash ev_chk))))"

text \<open>
  The events around the reply when the commit gets as far as sending it: the duplicate
  check before it and the duplicate mark after it.
\<close>

definition commit_check_events ::
  "md5_fn \<Rightarrow> sieve_script_env \<Rightarrow> act_vacation_context \<Rightarrow> string \<Rightarrow> event list" where
  "commit_check_events md5 senv ctx r =
     (case duplicate_check senv of
        None \<Rightarrow> []
      | Some chk \<Rightarrow> [Duplicate_check (act_vacation_hash md5 r ctx) (username senv)])"

definition commit_mark_events ::
  "md5_fn \<Rightarrow> sieve_script_env \<Rightarrow> time_t \<Rightarrow> act_vacation_context \<Rightarrow> string \<Rightarrow> string
     \<Rightarrow> event list" where
  "commit_mark_events md5 senv ioloop_time ctx dupl_hash0 r =
     (case duplicate_mark senv of
        None \<Rightarrow> []
      | Some mark \<Rightarrow>
          [Duplicate_mark
             (case duplicate_check senv of
                None \<Rightarrow> dupl_hash0
              | Some chk \<Rightarrow> act_vacation_hash md5 r ctx)
             (username senv)
             (ioloop_time + days ctx * (24 * 60 * 60))])"

section \<open>The duplicate extension (second part of lib-sieve/sieve-validator.h)\<close>

subsection \<open>The host's duplicate store\<close>

text \<open>
  Modelled from the spec: the three wrappers around the host's duplicate store that
  the extension calls (they are defined in none of the sources). The spec: "Any field may be
  absent; absence is a runtime capability gate, not an error". The gate is open when
  the host provides the store, that is, both of its functions; the wrappers call the
  host function and do nothing when the gate is closed.
\<close>

definition sieve_action_duplicate_check_available :: "sieve_script_env \<Rightarrow> bool" where
  "sieve_action_duplicate_check_available senv =
     (duplicate_check senv \<noteq> None \<and> duplicate_mark senv \<noteq> None)"

definition sieve_action_duplicate_check ::
  "sieve_script_env \<Rightarrow> string \<Rightarrow> bool \<times> event list" where
  "sieve_action_duplicate_check senv h =
     (case duplicate_check senv of
        Some chk \<Rightarrow>
          if duplicate_mark senv \<noteq> None
          then (chk h (username senv), [Duplicate_check h (username senv)])
          else (False, [])
      | None \<Rightarrow> (False, []))"

definition sieve_action_duplicate_mark ::
  "sieve_script_env \<Rightarrow> string \<Rightarrow> time_t \<Rightarrow> event list" where
  "sieve_action_duplicate_mark senv h t =
     (if sieve_action_duplicate_check_available senv
      then [Duplicate_mark h (username senv) t] else [])"

subsection \<open>The duplicate_mark action\<close>

definition act_duplicate_mark :: sieve_action where
  "act_duplicate_mark = \<lparr> name = ''duplicate_mark'', flags = 0 \<rparr>"

text \<open>
  \<open>act_duplicate_mark_finish\<close>: the events of the finish hook for the status it is
  given. \<open>data->period\<close> is an \<open>unsigned int\<close>, widened for the addition.
\<close>

definition act_duplicate_mark_finish ::
  "sieve_script_env \<Rightarrow> time_t \<Rightarrow> act_duplicate_mark_data \<Rightarrow> int \<Rightarrow> event list" where
  "act_duplicate_mark_finish senv ioloop_time data status =
     (if status = SIEVE_EXEC_OK then
        sieve_action_duplicate_mark senv (hash data) (ioloop_time + ucast (period data))
      else [])"

subsection \<open>Duplicate checking\<close>

record ext_duplicate_handle =
  h_handle :: string
  h_last :: bool
  h_duplicate :: bool

text \<open>
  \<open>struct ext_duplicate_context\<close>; \<open>handles = None\<close> is the array before
  \<open>p_array_init\<close>. The per-message extension context is \<open>None\<close> until the first call
  creates it.
\<close>

record ext_duplicate_context =
  handles :: "ext_duplicate_handle list option"
  nohandle_duplicate :: bool
  nohandle_checked :: bool

definition ext_duplicate_context_new :: ext_duplicate_context where
  "ext_duplicate_context_new =
     \<lparr> handles = None, nohandle_duplicate = False, nohandle_checked = False \<rparr>"

definition ext_duplicate_hash ::
  "md5_fn \<Rightarrow> string option \<Rightarrow> string \<Rightarrow> bool \<Rightarrow> string" where
  "ext_duplicate_hash md5 handle_s value_s last_f =
     md5 (''sieve duplicate'' @ (if last_f then ''0'' else ''+'')
          @ (case handle_s of Some h \<Rightarrow> ''h-'' @ h | None \<Rightarrow> ''default'')
          @ value_s)"

text \<open>
  The lookup at the head of \<open>ext_duplicate_check\<close> ("find out whether duplicate was
  checked earlier") in an existing context: the verdict found, if any.
\<close>

definition ext_duplicate_lookup ::
  "ext_duplicate_context \<Rightarrow> string option \<Rightarrow> bool \<Rightarrow> bool option" where
  "ext_duplicate_lookup rctx handle_s last_f =
     (case handle_s of
        None \<Rightarrow> if nohandle_checked rctx then Some (nohandle_duplicate rctx) else None
      | Some h \<Rightarrow>
          (case handles rctx of
             None \<Rightarrow> None
           | Some records \<Rightarrow>
               map_option h_duplicate
                 (find (\<lambda>r. h_handle r = h \<and> h_last r = last_f) records)))"

text \<open>The "cache result" block at the end of \<open>ext_duplicate_check\<close>.\<close>

definition ext_duplicate_cache ::
  "ext_duplicate_context \<Rightarrow> string option \<Rightarrow> bool \<Rightarrow> bool \<Rightarrow> ext_duplicate_context" where
  "ext_duplicate_cache rctx handle_s last_f dup =
     (case handle_s of
        None \<Rightarrow> rctx\<lparr> nohandle_duplicate := dup, nohandle_checked := True \<rparr>
      | Some h \<Rightarrow>
          rctx\<lparr> handles :=
            Some ((case handles rctx of None \<Rightarrow> [] | Some records \<Rightarrow> records)
                  @ [\<lparr> h_handle = h, h_last = last_f, h_duplicate = dup \<rparr>]) \<rparr>)"

text \<open>
  \<open>ext_duplicate_check\<close>. The state it works on is the per-message extension context
  and the result list; it returns its \<open>int\<close>, the new state and the events.
\<close>

definition ext_duplicate_check ::
  "md5_fn \<Rightarrow> add_action_fn \<Rightarrow> sieve_script_env
     \<Rightarrow> ext_duplicate_context option \<Rightarrow> sieve_result
     \<Rightarrow> string option \<Rightarrow> string option \<Rightarrow> sieve_number_t \<Rightarrow> bool
     \<Rightarrow> int \<times> ext_duplicate_context option \<times> sieve_result \<times> event list" where
  "ext_duplicate_check md5 add_action senv msgctx result handle_s value_s period_n last_f =
     (if \<not> sieve_action_duplicate_check_available senv then
        (0, msgctx, result,
         [Runtime_warning
            (''duplicate test: '' @ ''duplicate checking not available in this context'')])
      else
        case value_s of
          None \<Rightarrow> (0, msgctx, result, [])
        | Some v \<Rightarrow>
            (let rctx = (case msgctx of None \<Rightarrow> ext_duplicate_context_new | Some c \<Rightarrow> c);
                 earlier = (case msgctx of
                              None \<Rightarrow> None
                            | Some c \<Rightarrow> ext_duplicate_lookup c handle_s last_f)
             in case earlier of
                  Some d \<Rightarrow> ((if d then 1 else 0), Some rctx, result, [])
                | None \<Rightarrow>
                    (let act = \<lparr> mark_handle = handle_s, period = ucast period_n,
                                 hash = ext_duplicate_hash md5 handle_s v last_f,
                                 last = last_f \<rparr>;
                         (dup, ev1) = sieve_action_duplicate_check senv (hash act);
                         ev2 = (if \<not> dup \<and> last_f then
                                  snd (sieve_action_duplicate_check senv
                                         (ext_duplicate_hash md5 handle_s v False))
                                else []);
                         (ret, result') =
                           (if \<not> dup \<or> last_f then
                              add_action result
                                \<lparr> call_action = act_duplicate_mark,
                                  call_source_line = None,
                                  call_context = Duplicate_mark_context act \<rparr>
                            else (0, result))
                     in if ret < 0 then (- 1, Some rctx, result', ev1 @ ev2)
                        else ((if dup then 1 else 0),
                              Some (ext_duplicate_cache rctx handle_s last_f dup),
                              result', ev1 @ ev2))))"

text \<open>
  The duplicate tests of one message, run one after the other on the per-message
  context and the result list. A call is the handle, the value, the period and the
  \<open>last\<close> flag.
\<close>

type_synonym duplicate_call = "string option \<times> string option \<times> sieve_number_t \<times> bool"

fun ext_duplicate_check_calls ::
  "md5_fn \<Rightarrow> add_action_fn \<Rightarrow> sieve_script_env \<Rightarrow> duplicate_call list
     \<Rightarrow> ext_duplicate_context option \<times> sieve_result
     \<Rightarrow> ext_duplicate_context option \<times> sieve_result" where
  "ext_duplicate_check_calls md5 add_action senv [] s = s"
| "ext_duplicate_check_calls md5 add_action senv ((h, v, p, l) # calls) (msgctx, result) =
     (case ext_duplicate_check md5 add_action senv msgctx result h v p l of
        (ret, msgctx', result', evs) \<Rightarrow>
          ext_duplicate_check_calls md5 add_action senv calls (msgctx', result'))"

section \<open>The address test (first part of unnamed/part_000)\<close>

subsection \<open>The match engine\<close>

text \<open>
  Modelled from the spec: comparators, match types and address parts (section 4.6;
  their files are not among the sources). \<open>i;octet\<close> compares octets,
  \<open>i;ascii-casemap\<close> compares after folding the ASCII letters; \<open>:is\<close> is equality,
  \<open>:contains\<close> substring and \<open>:matches\<close> the glob with \<open>*\<close>, \<open>?\<close> and \<open>\\<close>, each
  under the comparator; \<open>:all\<close> is \<open>local@domain\<close>, and an address without the part
  asked for is skipped.
\<close>

definition cmp_char_eq :: "sieve_comparator \<Rightarrow> char \<Rightarrow> char \<Rightarrow> bool" where
  "cmp_char_eq cmp a b =
     (case cmp of
        i_octet_comparator \<Rightarrow> a = b
      | i_ascii_casemap_comparator \<Rightarrow> ascii_tolower a = ascii_tolower b)"

definition cmp_equals :: "sieve_comparator \<Rightarrow> string \<Rightarrow> string \<Rightarrow> bool" where
  "cmp_equals cmp a b = list_all2 (cmp_char_eq cmp) a b"

fun cmp_contains :: "sieve_comparator \<Rightarrow> string \<Rightarrow> string \<Rightarrow> bool" where
  "cmp_contains cmp [] key = (key = [])"
| "cmp_contains cmp (c # cs) key =
     (cmp_equals cmp (take (length key) (c # cs)) key \<or> cmp_contains cmp cs key)"

fun cmp_glob :: "sieve_comparator \<Rightarrow> string \<Rightarrow> string \<Rightarrow> bool" where
  "cmp_glob cmp [] s = (s = [])"
| "cmp_glob cmp (x # p) s =
     (if x = CHR ''*'' then
        (cmp_glob cmp p s \<or> (case s of [] \<Rightarrow> False | c # cs \<Rightarrow> cmp_glob cmp (x # p) cs))
      else if x = CHR ''?'' then
        (case s of [] \<Rightarrow> False | c # cs \<Rightarrow> cmp_glob cmp p cs)
      else if x = CHR 0x5C then
        (case p of
           [] \<Rightarrow> False
         | y # q \<Rightarrow> (case s of [] \<Rightarrow> False | c # cs \<Rightarrow> cmp_char_eq cmp y c \<and> cmp_glob cmp q cs))
      else (case s of [] \<Rightarrow> False | c # cs \<Rightarrow> cmp_char_eq cmp x c \<and> cmp_glob cmp p cs))"

definition sieve_match_value ::
  "sieve_match_type \<Rightarrow> sieve_comparator \<Rightarrow> string list \<Rightarrow> string \<Rightarrow> bool" where
  "sieve_match_value mtch cmp key_list v =
     list_ex (\<lambda>key. case mtch of
                       is_match_type \<Rightarrow> cmp_equals cmp v key
                     | contains_match_type \<Rightarrow> cmp_contains cmp v key
                     | matches_match_type \<Rightarrow> cmp_glob cmp key v) key_list"

definition sieve_match_end :: "sieve_match_type \<Rightarrow> bool" where
  "sieve_match_end mtch = False"

definition address_part_of :: "sieve_address_part \<Rightarrow> message_address \<Rightarrow> string option" where
  "address_part_of addrp a =
     (case addrp of
        all_address_part \<Rightarrow>
          (case (mailbox a, domain a) of
             (Some m, Some d) \<Rightarrow> Some (m @ ''@'' @ d)
           | (Some m, None) \<Rightarrow> Some m
           | _ \<Rightarrow> None)
      | local_address_part \<Rightarrow> mailbox a
      | domain_address_part \<Rightarrow> domain a)"

definition sieve_address_match ::
  "parse_fn \<Rightarrow> sieve_address_part \<Rightarrow> sieve_match_type \<Rightarrow> sieve_comparator
     \<Rightarrow> string list \<Rightarrow> string \<Rightarrow> bool" where
  "sieve_address_match parse addrp mtch cmp key_list header =
     list_ex (\<lambda>a. case address_part_of addrp a of
                     None \<Rightarrow> False
                   | Some part \<Rightarrow> sieve_match_value mtch cmp key_list part)
       (parse header)"

subsection \<open>Optional operands of address matching\<close>

definition SIEVE_AM_OPT_END :: int where "SIEVE_AM_OPT_END = 0"
definition SIEVE_AM_OPT_COMPARATOR :: int where "SIEVE_AM_OPT_COMPARATOR = 1"
definition SIEVE_AM_OPT_ADDRESS_PART :: int where "SIEVE_AM_OPT_ADDRESS_PART = 2"
definition SIEVE_AM_OPT_MATCH_TYPE :: int where "SIEVE_AM_OPT_MATCH_TYPE = 3"

lemmas SIEVE_AM_OPT_defs =
  SIEVE_AM_OPT_END_def SIEVE_AM_OPT_COMPARATOR_def SIEVE_AM_OPT_ADDRESS_PART_def
  SIEVE_AM_OPT_MATCH_TYPE_def

definition sieve_opr_comparator_read ::
  "sieve_binary \<Rightarrow> sieve_size_t \<Rightarrow> (sieve_comparator \<times> sieve_size_t) option" where
  "sieve_opr_comparator_read sbin address =
     (case drop address sbin of
        Opr_comparator c # _ \<Rightarrow> Some (c, Suc address)
      | _ \<Rightarrow> None)"

definition sieve_opr_match_type_read ::
  "sieve_binary \<Rightarrow> sieve_size_t \<Rightarrow> (sieve_match_type \<times> sieve_size_t) option" where
  "sieve_opr_match_type_read sbin address =
     (case drop address sbin of
        Opr_match_type c # _ \<Rightarrow> Some (c, Suc address)
      | _ \<Rightarrow> None)"

definition sieve_opr_address_part_read ::
  "sieve_binary \<Rightarrow> sieve_size_t \<Rightarrow> (sieve_address_part \<times> sieve_size_t) option" where
  "sieve_opr_address_part_read sbin address =
     (case drop address sbin of
        Opr_address_part c # _ \<Rightarrow> Some (c, Suc address)
      | _ \<Rightarrow> None)"

lemma sieve_opr_comparator_read_adv:
  "sieve_opr_comparator_read sbin a = Some (c, a') \<Longrightarrow> a' = Suc a \<and> a < length sbin"
  by (cases "a < length sbin")
     (auto simp: sieve_opr_comparator_read_def split: list.splits operand.splits)

lemma sieve_opr_match_type_read_adv:
  "sieve_opr_match_type_read sbin a = Some (c, a') \<Longrightarrow> a' = Suc a \<and> a < length sbin"
  by (cases "a < length sbin")
     (auto simp: sieve_opr_match_type_read_def split: list.splits operand.splits)

lemma sieve_opr_address_part_read_adv:
  "sieve_opr_address_part_read sbin a = Some (c, a') \<Longrightarrow> a' = Suc a \<and> a < length sbin"
  by (cases "a < length sbin")
     (auto simp: sieve_opr_address_part_read_def split: list.splits operand.splits)

text \<open>
  Modelled from the spec: \<open>sieve_addrmatch_default_get_optionals\<close> (not among the
  sources). It reads the optional-operand block, "prefix of (non-zero) (opt_code,
  operand) pairs terminated by opt_code 0", and overwrites the address part, match type
  or comparator it is handed for each pair it finds; without a block it leaves all
  three as they are. \<open>None\<close> is the return value \<open>FALSE\<close>.
\<close>

type_synonym addrmatch_optionals =
  "sieve_address_part \<times> sieve_match_type \<times> sieve_comparator"

function addrmatch_optionals_loop ::
  "sieve_binary \<Rightarrow> sieve_size_t \<Rightarrow> addrmatch_optionals
     \<Rightarrow> (addrmatch_optionals \<times> sieve_size_t) option" where
  "addrmatch_optionals_loop sbin address (addrp, mtch, cmp) =
     (case sieve_operand_optional_read sbin address of
        None \<Rightarrow> None
      | Some (opt_code, a1) \<Rightarrow>
          if opt_code = SIEVE_AM_OPT_END then Some ((addrp, mtch, cmp), a1)
          else if opt_code = SIEVE_AM_OPT_COMPARATOR then
            (case sieve_opr_comparator_read sbin a1 of
               None \<Rightarrow> None
             | Some (c, a2) \<Rightarrow> addrmatch_optionals_loop sbin a2 (addrp, mtch, c))
          else if opt_code = SIEVE_AM_OPT_ADDRESS_PART then
            (case sieve_opr_address_part_read sbin a1 of
               None \<Rightarrow> None
             | Some (p, a2) \<Rightarrow> addrmatch_optionals_loop sbin a2 (p, mtch, cmp))
          else if opt_code = SIEVE_AM_OPT_MATCH_TYPE then
            (case sieve_opr_match_type_read sbin a1 of
               None \<Rightarrow> None
             | Some (m, a2) \<Rightarrow> addrmatch_optionals_loop sbin a2 (addrp, m, cmp))
          else None)"
  by pat_completeness auto
termination
  by (relation "measure (\<lambda>(sbin, address, opts). length sbin - address)")
     (auto dest!: sieve_operand_optional_read_adv sieve_opr_comparator_read_adv
        sieve_opr_match_type_read_adv sieve_opr_address_part_read_adv)

declare addrmatch_optionals_loop.simps [simp del]

definition sieve_addrmatch_default_get_optionals ::
  "sieve_binary \<Rightarrow> sieve_size_t \<Rightarrow> addrmatch_optionals
     \<Rightarrow> (addrmatch_optionals \<times> sieve_size_t) option" where
  "sieve_addrmatch_default_get_optionals sbin address opts =
     (let (present, a1) = sieve_operand_optional_present sbin address in
      if present then addrmatch_optionals_loop sbin a1 opts else Some (opts, a1))"

subsection \<open>Code execution\<close>

text \<open>
  The two nested loops of \<open>tst_address_opcode_execute\<close>: over the requested header
  names and, for each, over the header values of the message, both left at the first
  match.
\<close>

definition headers_match ::
  "parse_fn \<Rightarrow> mail \<Rightarrow> addrmatch_optionals \<Rightarrow> string list \<Rightarrow> string list \<Rightarrow> bool" where
  "headers_match parse m opts hdr_list key_list =
     (case opts of (addrp, mtch, cmp) \<Rightarrow>
        list_ex (\<lambda>hdr_item.
                   case mail_get_headers_utf8 m hdr_item of
                     None \<Rightarrow> False
                   | Some headers \<Rightarrow>
                       list_ex (sieve_address_match parse addrp mtch cmp key_list) headers)
          hdr_list)"

text \<open>
  \<open>tst_address_opcode_execute\<close>: \<open>None\<close> is the return value \<open>FALSE\<close>; otherwise the
  test result that is stored in the interpreter, and the address reached. The locals
  \<open>cmp\<close>, \<open>mtch\<close> and \<open>addrp\<close> are initialised before the optional operands are read.
\<close>

definition tst_address_defaults :: addrmatch_optionals where
  "tst_address_defaults = (all_address_part, is_match_type, i_octet_comparator)"

definition tst_address_opcode_execute ::
  "parse_fn \<Rightarrow> sieve_binary \<Rightarrow> sieve_size_t \<Rightarrow> sieve_message_data
     \<Rightarrow> (bool \<times> sieve_size_t) option \<times> event list" where
  "tst_address_opcode_execute parse sbin address msgdata =
     (case sieve_addrmatch_default_get_optionals sbin address tst_address_defaults of
        None \<Rightarrow> (None, [Stdout (''?? ADDRESS'' @ [CHR 0x0A])])
      | Some (opts, a1) \<Rightarrow>
          (case sieve_opr_stringlist_read sbin a1 of
             None \<Rightarrow> (None, [Stdout (''?? ADDRESS'' @ [CHR 0x0A])])
           | Some (hdr_list, a2) \<Rightarrow>
               (case sieve_opr_stringlist_read sbin a2 of
                  None \<Rightarrow> (None, [Stdout (''?? ADDRESS'' @ [CHR 0x0A])])
                | Some (key_list, a3) \<Rightarrow>
                    (let matched = headers_match parse (msg_mail msgdata) opts hdr_list key_list;
                         matched' = (sieve_match_end (fst (snd opts)) \<or> matched)
                     in (Some (matched', a3), [Stdout (''?? ADDRESS'' @ [CHR 0x0A])])))))"

section \<open>Concrete instances\<close>

text \<open>
  A host that provides every capability, and one delivery: a message from
  \<open>bob@example.com\<close> to \<open>jane@example.org\<close>. The digest function of the instances is the
  identity and the address parser knows the header values of the message.
\<close>

definition host_env :: sieve_script_env where
  "host_env =
     \<lparr> username = Some ''jane'',
       smtp_open = Some (\<lambda>dest. 1),
       smtp_close = Some (\<lambda>h. True),
       duplicate_check = Some (\<lambda>h u. False),
       duplicate_mark = Some (\<lambda>h u t. ()) \<rparr>"

definition host_env_seen :: sieve_script_env where
  "host_env_seen = host_env \<lparr> duplicate_check := Some (\<lambda>h u. True) \<rparr>"

definition host_env_bare :: sieve_script_env where
  "host_env_bare =
     \<lparr> username = Some ''jane'', smtp_open = None, smtp_close = None,
       duplicate_check = None, duplicate_mark = None \<rparr>"

definition example_mail :: mail where
  "example_mail =
     \<lparr> mail_get_headers = (\<lambda>hdr. Some []),
       mail_get_headers_utf8 =
         (\<lambda>hdr. if hdr = ''to'' then Some [''jane@example.org'']
                 else if hdr = ''from'' then Some [''Root@host'']
                 else Some []) \<rparr>"

definition example_parse :: parse_fn where
  "example_parse h =
     (if h = ''jane@example.org''
      then [\<lparr> mailbox = Some ''jane'', domain = Some ''example.org'' \<rparr>]
      else if h = ''Root@host'' then [\<lparr> mailbox = Some ''Root'', domain = Some ''host'' \<rparr>]
      else [])"

definition example_msgdata :: sieve_message_data where
  "example_msgdata =
     \<lparr> msg_mail = example_mail, return_path = Some ''bob@example.com'',
       to_address = Some ''jane@example.org'', auth_user = Some ''jane'',
       msg_id = None \<rparr>"

definition example_ctx :: act_vacation_context where
  "example_ctx =
     \<lparr> reason = ''I am away'', days = 7, subject = Some ''Away'', handle = ''h1'',
       mime = False, from_address = None, from_normalized = None, addresses = None \<rparr>"

text \<open>
  Three entries of a result list: a vacation action, another action whose object
  carries \<open>SIEVE_ACTFLAG_SENDS_RESPONSE\<close>, and one whose object does not.
\<close>

definition example_vacation :: sieve_action_data where
  "example_vacation =
     \<lparr> action = act_vacation, location = ''line 5'',
       act_context = Vacation_context example_ctx, executed = False \<rparr>"



text \<open>
  A stand-in for \<open>sieve_result_add_action\<close> that appends the action it is given and
  succeeds.
\<close>

definition example_add_action :: add_action_fn where
  "example_add_action result call =
     (0, result @ [\<lparr> action = call_action call, location = ''line 3'',
                      act_context = call_context call, executed = False \<rparr>])"

section \<open>Properties of the vacation operation\<close>

subsection \<open>Reading the binary\<close>

lemma drop_eq_Cons_Suc: "drop a xs = y # ys \<Longrightarrow> drop (Suc a) xs = ys"
  by (metis drop_Suc drop_tl list.sel(3) tl_drop)

text \<open>One equation of the loop per branch of the \<open>switch\<close>.\<close>

lemma loop_read_fail:
  "sieve_operand_optional_read sbin a = None \<Longrightarrow>
   vacation_optionals_loop sbin a l = Inl [Runtime_trace_error ''invalid optional operand'']"
  by (subst vacation_optionals_loop.simps) simp

lemma loop_end:
  "sieve_operand_optional_read sbin a = Some (0, a1) \<Longrightarrow>
   vacation_optionals_loop sbin a l = Inr (l, a1)"
  by (subst vacation_optionals_loop.simps) simp

lemma loop_opt_days:
  "sieve_operand_optional_read sbin a = Some (OPT_DAYS, a1) \<Longrightarrow>
   vacation_optionals_loop sbin a l =
     (case sieve_opr_number_read sbin a1 of
        None \<Rightarrow> Inl [Runtime_trace_error ''invalid days operand'']
      | Some (d, a2) \<Rightarrow>
          vacation_optionals_loop sbin a2 (l\<lparr> loc_days := (if d = 0 then 1 else d) \<rparr>))"
  by (subst vacation_optionals_loop.simps) (simp add: OPT_defs)

lemma loop_opt_subject:
  "sieve_operand_optional_read sbin a = Some (OPT_SUBJECT, a1) \<Longrightarrow>
   vacation_optionals_loop sbin a l =
     (case sieve_opr_string_read sbin a1 of
        None \<Rightarrow> Inl [Runtime_trace_error ''invalid subject operand'']
      | Some (s, a2) \<Rightarrow> vacation_optionals_loop sbin a2 (l\<lparr> loc_subject := Some s \<rparr>))"
  by (subst vacation_optionals_loop.simps) (simp add: OPT_defs)

lemma loop_opt_from:
  "sieve_operand_optional_read sbin a = Some (OPT_FROM, a1) \<Longrightarrow>
   vacation_optionals_loop sbin a l =
     (case sieve_opr_string_read sbin a1 of
        None \<Rightarrow> Inl [Runtime_trace_error ''invalid from address operand'']
      | Some (s, a2) \<Rightarrow> vacation_optionals_loop sbin a2 (l\<lparr> loc_from := Some s \<rparr>))"
  by (subst vacation_optionals_loop.simps) (simp add: OPT_defs)

lemma loop_opt_addresses:
  "sieve_operand_optional_read sbin a = Some (OPT_ADDRESSES, a1) \<Longrightarrow>
   vacation_optionals_loop sbin a l =
     (case sieve_opr_stringlist_read sbin a1 of
        None \<Rightarrow> Inl [Runtime_trace_error ''invalid addresses operand'']
      | Some (ss, a2) \<Rightarrow> vacation_optionals_loop sbin a2 (l\<lparr> loc_addresses := Some ss \<rparr>))"
  by (subst vacation_optionals_loop.simps) (simp add: OPT_defs)

lemma loop_opt_mime:
  "sieve_operand_optional_read sbin a = Some (OPT_MIME, a1) \<Longrightarrow>
   vacation_optionals_loop sbin a l = vacation_optionals_loop sbin a1 (l\<lparr> loc_mime := True \<rparr>)"
  by (subst vacation_optionals_loop.simps) (simp add: OPT_defs)

lemma loop_opt_unknown:
  "sieve_operand_optional_read sbin a = Some (c, a1) \<Longrightarrow> unknown_opt_code c \<Longrightarrow>
   vacation_optionals_loop sbin a l = Inl [Runtime_trace_error ''unknown optional operand'']"
  by (subst vacation_optionals_loop.simps) (simp add: OPT_defs unknown_opt_code_def)

lemma opt_code_cases:
  obtains "c = 0" | "c = OPT_DAYS" | "c = OPT_SUBJECT" | "c = OPT_FROM"
    | "c = OPT_ADDRESSES" | "c = OPT_MIME" | "unknown_opt_code c"
  by (auto simp: unknown_opt_code_def OPT_defs)

text \<open>Once the days are non-zero they stay non-zero through the loop.\<close>

lemma loop_days:
  "vacation_optionals_loop sbin a l = Inr (l', a') \<Longrightarrow> loc_days l \<noteq> 0 \<Longrightarrow> loc_days l' \<noteq> 0"
proof (induction sbin a l rule: vacation_optionals_loop.induct)
  case (1 sbin address l)
  note prem = "1.prems"(1) and nz = "1.prems"(2)
  show ?case
  proof (cases "sieve_operand_optional_read sbin address")
    case None
    from prem show ?thesis by (simp add: loop_read_fail[OF None])
  next
    case (Some x)
    obtain c a1 where x: "x = (c, a1)" by (cases x)
    have rd: "sieve_operand_optional_read sbin address = Some (c, a1)" using Some x by simp
    show ?thesis
    proof (cases c rule: opt_code_cases)
      case 1
      with prem rd nz show ?thesis by (simp add: loop_end)
    next
      case 2
      show ?thesis
      proof (cases "sieve_opr_number_read sbin a1")
        case None
        with prem rd 2 show ?thesis by (simp add: loop_opt_days)
      next
        case (Some y)
        obtain d a2 where y: "y = (d, a2)" by (cases y)
        have "vacation_optionals_loop sbin a2 (l\<lparr> loc_days := (if d = 0 then 1 else d) \<rparr>)
                = Inr (l', a')"
          using prem rd 2 Some y by (simp add: loop_opt_days)
        moreover have "loc_days (l\<lparr> loc_days := (if d = 0 then 1 else d) \<rparr>) \<noteq> 0" by simp
        ultimately show ?thesis
          using "1.IH"(1)[OF rd refl _ 2 Some[unfolded y] refl] 2
          by (simp add: OPT_defs)
      qed
    next
      case 3
      show ?thesis
      proof (cases "sieve_opr_string_read sbin a1")
        case None
        with prem rd 3 show ?thesis by (simp add: loop_opt_subject)
      next
        case (Some y)
        obtain v a2 where y: "y = (v, a2)" by (cases y)
        have "vacation_optionals_loop sbin a2 (l\<lparr> loc_subject := Some v \<rparr>) = Inr (l', a')"
          using prem rd 3 Some y by (simp add: loop_opt_subject)
        then show ?thesis
          using "1.IH"(2)[OF rd refl _ _ 3 Some[unfolded y] refl] nz 3
          by (simp add: OPT_defs)
      qed
    next
      case 4
      show ?thesis
      proof (cases "sieve_opr_string_read sbin a1")
        case None
        with prem rd 4 show ?thesis by (simp add: loop_opt_from)
      next
        case (Some y)
        obtain v a2 where y: "y = (v, a2)" by (cases y)
        have "vacation_optionals_loop sbin a2 (l\<lparr> loc_from := Some v \<rparr>) = Inr (l', a')"
          using prem rd 4 Some y by (simp add: loop_opt_from)
        then show ?thesis
          using "1.IH"(3)[OF rd refl _ _ _ 4 Some[unfolded y] refl] nz 4
          by (simp add: OPT_defs)
      qed
    next
      case 5
      show ?thesis
      proof (cases "sieve_opr_stringlist_read sbin a1")
        case None
        with prem rd 5 show ?thesis by (simp add: loop_opt_addresses)
      next
        case (Some y)
        obtain v a2 where y: "y = (v, a2)" by (cases y)
        have "vacation_optionals_loop sbin a2 (l\<lparr> loc_addresses := Some v \<rparr>) = Inr (l', a')"
          using prem rd 5 Some y by (simp add: loop_opt_addresses)
        then show ?thesis
          using "1.IH"(4)[OF rd refl _ _ _ _ 5 Some[unfolded y] refl] nz 5
          by (simp add: OPT_defs)
      qed
    next
      case 6
      have "vacation_optionals_loop sbin a1 (l\<lparr> loc_mime := True \<rparr>) = Inr (l', a')"
        using prem rd 6 by (simp add: loop_opt_mime)
      then show ?thesis
        using "1.IH"(5)[OF rd refl _ _ _ _ _ 6] nz 6
        by (simp add: OPT_defs)
    next
      case 7
      with prem rd show ?thesis by (simp add: loop_opt_unknown)
    qed
  qed
qed

text \<open>The loop runs through a well-formed prefix of the block pair by pair.\<close>

lemma loop_step:
  assumes "drop a sbin = emit_optional opt @ rest"
  shows "vacation_optionals_loop sbin a l =
           vacation_optionals_loop sbin (a + length (emit_optional opt)) (assign_optional opt l)
         \<and> drop (a + length (emit_optional opt)) sbin = rest"
proof (cases opt)
  case (Days d)
  with assms have d0: "drop a sbin = Opr_code OPT_DAYS # Opr_number d # rest" by simp
  then have d1: "drop (Suc a) sbin = Opr_number d # rest" by (rule drop_eq_Cons_Suc)
  then have d2: "drop (Suc (Suc a)) sbin = rest" by (rule drop_eq_Cons_Suc)
  have "sieve_operand_optional_read sbin a = Some (OPT_DAYS, Suc a)"
    using d0 by (simp add: sieve_operand_optional_read_def)
  then show ?thesis using d1 d2 Days
    by (simp add: loop_opt_days sieve_opr_number_read_def)
next
  case (Subject s)
  with assms have d0: "drop a sbin = Opr_code OPT_SUBJECT # Opr_string s # rest" by simp
  then have d1: "drop (Suc a) sbin = Opr_string s # rest" by (rule drop_eq_Cons_Suc)
  then have d2: "drop (Suc (Suc a)) sbin = rest" by (rule drop_eq_Cons_Suc)
  have "sieve_operand_optional_read sbin a = Some (OPT_SUBJECT, Suc a)"
    using d0 by (simp add: sieve_operand_optional_read_def)
  then show ?thesis using d1 d2 Subject
    by (simp add: loop_opt_subject sieve_opr_string_read_def)
next
  case (From_address s)
  with assms have d0: "drop a sbin = Opr_code OPT_FROM # Opr_string s # rest" by simp
  then have d1: "drop (Suc a) sbin = Opr_string s # rest" by (rule drop_eq_Cons_Suc)
  then have d2: "drop (Suc (Suc a)) sbin = rest" by (rule drop_eq_Cons_Suc)
  have "sieve_operand_optional_read sbin a = Some (OPT_FROM, Suc a)"
    using d0 by (simp add: sieve_operand_optional_read_def)
  then show ?thesis using d1 d2 From_address
    by (simp add: loop_opt_from sieve_opr_string_read_def)
next
  case (Addresses ss)
  with assms have d0: "drop a sbin = Opr_code OPT_ADDRESSES # Opr_stringlist ss # rest"
    by simp
  then have d1: "drop (Suc a) sbin = Opr_stringlist ss # rest" by (rule drop_eq_Cons_Suc)
  then have d2: "drop (Suc (Suc a)) sbin = rest" by (rule drop_eq_Cons_Suc)
  have "sieve_operand_optional_read sbin a = Some (OPT_ADDRESSES, Suc a)"
    using d0 by (simp add: sieve_operand_optional_read_def)
  then show ?thesis using d1 d2 Addresses
    by (simp add: loop_opt_addresses sieve_opr_stringlist_read_def)
next
  case Mime
  with assms have d0: "drop a sbin = Opr_code OPT_MIME # rest" by simp
  then have d1: "drop (Suc a) sbin = rest" by (rule drop_eq_Cons_Suc)
  have "sieve_operand_optional_read sbin a = Some (OPT_MIME, Suc a)"
    using d0 by (simp add: sieve_operand_optional_read_def)
  then show ?thesis using d1 Mime
    by (simp add: loop_opt_mime)
qed

lemma loop_prefix:
  "drop a sbin = concat (map emit_optional opts) @ rest \<Longrightarrow>
   vacation_optionals_loop sbin a l =
     vacation_optionals_loop sbin (a + length (concat (map emit_optional opts)))
       (fold assign_optional opts l)
   \<and> drop (a + length (concat (map emit_optional opts))) sbin = rest"
proof (induction opts arbitrary: a l)
  case Nil
  then show ?case by simp
next
  case (Cons opt opts)
  from Cons.prems
  have "drop a sbin = emit_optional opt @ (concat (map emit_optional opts) @ rest)"
    by simp
  from loop_step[OF this, of l]
    Cons.IH[of "a + length (emit_optional opt)" "assign_optional opt l"]
  show ?case
    by (simp only: list.map concat.simps length_append add.assoc fold_simps o_apply)
qed

subsection \<open>Corrupt optional-operand blocks\<close>

lemma loop_corrupt_head:
  assumes "drop a sbin = tail" and "corrupt_block_head tail"
  shows "\<exists>msg. vacation_optionals_loop sbin a l = Inl [Runtime_trace_error msg]"
proof (cases "sieve_operand_optional_read sbin a")
  case None
  then show ?thesis by (simp add: loop_read_fail)
next
  case (Some x)
  obtain c a1 where x: "x = (c, a1)" by (cases x)
  with Some have rd: "sieve_operand_optional_read sbin a = Some (c, a1)" by simp
  then have a1: "a1 = Suc a" by (simp add: sieve_operand_optional_read_adv)
  from rd obtain rest where tl: "drop a sbin = Opr_code c # rest"
    by (auto simp: sieve_operand_optional_read_def split: list.splits operand.splits)
  then have d1: "drop (Suc a) sbin = rest" by (rule drop_eq_Cons_Suc)
  from assms tl have bad: "unknown_opt_code c \<or> operand_undecodable c rest"
    by (auto simp: corrupt_block_head_def)
  show ?thesis
  proof (cases c rule: opt_code_cases)
    case 1
    with bad show ?thesis by (simp add: unknown_opt_code_def operand_undecodable_def OPT_defs)
  next
    case 2
    with bad have "sieve_opr_number_read sbin a1 = None"
      using d1 a1
      by (auto simp: unknown_opt_code_def operand_undecodable_def OPT_defs
            sieve_opr_number_read_def split: list.splits operand.splits)
    with rd 2 show ?thesis by (simp add: loop_opt_days)
  next
    case 3
    with bad have "sieve_opr_string_read sbin a1 = None"
      using d1 a1
      by (auto simp: unknown_opt_code_def operand_undecodable_def OPT_defs
            sieve_opr_string_read_def split: list.splits operand.splits)
    with rd 3 show ?thesis by (simp add: loop_opt_subject)
  next
    case 4
    with bad have "sieve_opr_string_read sbin a1 = None"
      using d1 a1
      by (auto simp: unknown_opt_code_def operand_undecodable_def OPT_defs
            sieve_opr_string_read_def split: list.splits operand.splits)
    with rd 4 show ?thesis by (simp add: loop_opt_from)
  next
    case 5
    with bad have "sieve_opr_stringlist_read sbin a1 = None"
      using d1 a1
      by (auto simp: unknown_opt_code_def operand_undecodable_def OPT_defs
            sieve_opr_stringlist_read_def split: list.splits operand.splits)
    with rd 5 show ?thesis by (simp add: loop_opt_addresses)
  next
    case 6
    with bad show ?thesis by (simp add: unknown_opt_code_def operand_undecodable_def OPT_defs)
  next
    case 7
    with rd show ?thesis by (simp add: loop_opt_unknown)
  qed
qed

lemma read_corrupt_block:
  assumes "drop address sbin =
             Opr_source_line n # Opr_optional # concat (map emit_optional opts) @ tail"
    and "corrupt_block_head tail"
  shows "\<exists>msg. ext_vacation_operation_read sbin address = Inl [Runtime_trace_error msg]"
proof -
  let ?k = "length (concat (map emit_optional opts))"
  from assms(1) have d1: "drop (Suc address) sbin =
      Opr_optional # concat (map emit_optional opts) @ tail"
    by (rule drop_eq_Cons_Suc)
  then have d2: "drop (Suc (Suc address)) sbin = concat (map emit_optional opts) @ tail"
    by (rule drop_eq_Cons_Suc)
  have sl: "sieve_code_source_line_read sbin address = Some (n, Suc address)"
    using assms(1) by (simp add: sieve_code_source_line_read_def)
  have pr: "sieve_operand_optional_present sbin (Suc address) = (True, Suc (Suc address))"
    using d1 by (simp add: sieve_operand_optional_present_def)
  from loop_prefix[OF d2, of vacation_locals_init]
  have lp: "vacation_optionals_loop sbin (Suc (Suc address)) vacation_locals_init =
        vacation_optionals_loop sbin (Suc (Suc address) + ?k)
          (fold assign_optional opts vacation_locals_init)"
    and dk: "drop (Suc (Suc address) + ?k) sbin = tail" by simp_all
  from loop_corrupt_head[OF dk assms(2)] obtain msg where
    "vacation_optionals_loop sbin (Suc (Suc address) + ?k)
       (fold assign_optional opts vacation_locals_init) = Inl [Runtime_trace_error msg]"
    by blast
  with lp have "vacation_optionals_loop sbin (Suc (Suc address)) vacation_locals_init
      = Inl [Runtime_trace_error msg]" by simp
  then show ?thesis using sl pr
    by (simp add: ext_vacation_operation_read_def)
qed

text \<open>A well-formed block, closed by the code 0 and followed by reason and handle.\<close>

lemma read_wellformed_block:
  assumes "drop address sbin =
             Opr_source_line n # Opr_optional # concat (map emit_optional opts)
               @ Opr_code 0 # Opr_string r # Opr_string h # rest"
  shows "ext_vacation_operation_read sbin address =
           Inr (n, fold assign_optional opts vacation_locals_init, r, h,
                address + length (concat (map emit_optional opts)) + 5)"
proof -
  let ?k = "length (concat (map emit_optional opts))"
  let ?b = "Suc (Suc address) + ?k"
  from assms have d1: "drop (Suc address) sbin = Opr_optional # concat (map emit_optional opts)
      @ Opr_code 0 # Opr_string r # Opr_string h # rest"
    by (rule drop_eq_Cons_Suc)
  then have d2: "drop (Suc (Suc address)) sbin = concat (map emit_optional opts)
      @ Opr_code 0 # Opr_string r # Opr_string h # rest"
    by (rule drop_eq_Cons_Suc)
  have sl: "sieve_code_source_line_read sbin address = Some (n, Suc address)"
    using assms by (simp add: sieve_code_source_line_read_def)
  have pr: "sieve_operand_optional_present sbin (Suc address) = (True, Suc (Suc address))"
    using d1 by (simp add: sieve_operand_optional_present_def)
  from loop_prefix[OF d2, of vacation_locals_init]
  have lp: "vacation_optionals_loop sbin (Suc (Suc address)) vacation_locals_init =
        vacation_optionals_loop sbin ?b (fold assign_optional opts vacation_locals_init)"
    and dk: "drop ?b sbin = Opr_code 0 # Opr_string r # Opr_string h # rest" by simp_all
  from dk have dk1: "drop (Suc ?b) sbin = Opr_string r # Opr_string h # rest"
    by (rule drop_eq_Cons_Suc)
  then have dk2: "drop (Suc (Suc ?b)) sbin = Opr_string h # rest"
    by (rule drop_eq_Cons_Suc)
  have "sieve_operand_optional_read sbin ?b = Some (0, Suc ?b)"
    using dk by (simp add: sieve_operand_optional_read_def)
  then have "vacation_optionals_loop sbin ?b (fold assign_optional opts vacation_locals_init)
      = Inr (fold assign_optional opts vacation_locals_init, Suc ?b)"
    by (rule loop_end)
  with lp have "vacation_optionals_loop sbin (Suc (Suc address)) vacation_locals_init
      = Inr (fold assign_optional opts vacation_locals_init, Suc ?b)" by simp
  moreover have "sieve_opr_string_read sbin (Suc ?b) = Some (r, Suc (Suc ?b))"
    using dk1 by (simp add: sieve_opr_string_read_def)
  moreover have "sieve_opr_string_read sbin (Suc (Suc ?b)) = Some (h, Suc (Suc (Suc ?b)))"
    using dk2 by (simp add: sieve_opr_string_read_def)
  ultimately show ?thesis using sl pr
    by (simp add: ext_vacation_operation_read_def)
qed

text \<open>
  Claim C7. The operation reads its optional-operand block pair by pair up to the code 0.
  Let the block at \<open>address\<close> (after the source line and the marker of the block) start
  with any number of well-formed pairs \<open>opts\<close>. If the code 0, the reason and the
  handle follow them, all operands are read, each pair assigned in turn. If what
  follows them is corrupt, that is, the next code is none of 0, days, subject, from,
  addresses, mime, or it is one of these and its operand does not decode, or no code
  can be read at all, then the operation returns \<open>SIEVE_EXEC_BIN_CORRUPT\<close> with one
  trace line, and the result list is the one it was given, whatever
  \<open>sieve_result_add_action\<close> would do: no vacation action is added.
\<close>

theorem vacation_corrupt_optional_block:
  "(drop address sbin =
      Opr_source_line n # Opr_optional # concat (map emit_optional opts)
        @ Opr_code 0 # Opr_string r # Opr_string h # rest \<longrightarrow>
    ext_vacation_operation_read sbin address =
      Inr (n, fold assign_optional opts vacation_locals_init, r, h,
           address + length (concat (map emit_optional opts)) + 5))
   \<and> (drop address sbin =
        Opr_source_line n # Opr_optional # concat (map emit_optional opts) @ tail
      \<and> corrupt_block_head tail \<longrightarrow>
      (\<exists>msg. ext_vacation_operation_execute add_action sieve_address_normalize sbin
                result address
              = (SIEVE_EXEC_BIN_CORRUPT, result, [Runtime_trace_error msg])))"
proof (intro conjI impI)
  assume "drop address sbin =
      Opr_source_line n # Opr_optional # concat (map emit_optional opts)
        @ Opr_code 0 # Opr_string r # Opr_string h # rest"
  then show "ext_vacation_operation_read sbin address =
      Inr (n, fold assign_optional opts vacation_locals_init, r, h,
           address + length (concat (map emit_optional opts)) + 5)"
    by (rule read_wellformed_block)
next
  assume a: "drop address sbin =
        Opr_source_line n # Opr_optional # concat (map emit_optional opts) @ tail
      \<and> corrupt_block_head tail"
  then have "\<exists>msg. ext_vacation_operation_read sbin address = Inl [Runtime_trace_error msg]"
    using read_corrupt_block[of address sbin n opts tail] by blast
  then show "\<exists>msg. ext_vacation_operation_execute add_action sieve_address_normalize sbin
                result address
              = (SIEVE_EXEC_BIN_CORRUPT, result, [Runtime_trace_error msg])"
    by (auto simp: ext_vacation_operation_execute_def)
qed

theorem vacation_corrupt_optional_block_witness:
  "drop 0 [Opr_source_line 3, Opr_optional, Opr_code OPT_DAYS, Opr_number 7, Opr_code 9,
           Opr_string ''away'', Opr_string ''h1'']
     = Opr_source_line 3 # Opr_optional # concat (map emit_optional [Days 7])
         @ [Opr_code 9, Opr_string ''away'', Opr_string ''h1'']
   \<and> corrupt_block_head [Opr_code 9, Opr_string ''away'', Opr_string ''h1'']
   \<and> (\<exists>msg. ext_vacation_operation_execute (\<lambda>res call. (0, res)) Inr
          [Opr_source_line 3, Opr_optional, Opr_code OPT_DAYS, Opr_number 7, Opr_code 9,
           Opr_string ''away'', Opr_string ''h1''] [] 0
        = (SIEVE_EXEC_BIN_CORRUPT, [], [Runtime_trace_error msg]))
   \<and> ext_vacation_operation_read
         [Opr_source_line 3, Opr_optional, Opr_code OPT_DAYS, Opr_number 7, Opr_code OPT_MIME,
          Opr_code 0, Opr_string ''away'', Opr_string ''h1''] 0
       = Inr (3, vacation_locals_init\<lparr> loc_days := 7, loc_mime := True \<rparr>,
              ''away'', ''h1'', 8)"
proof -
  let ?bad = "[Opr_source_line 3, Opr_optional, Opr_code OPT_DAYS, Opr_number 7, Opr_code 9,
           Opr_string ''away'', Opr_string ''h1'']"
  let ?good = "[Opr_source_line 3, Opr_optional, Opr_code OPT_DAYS, Opr_number 7,
           Opr_code OPT_MIME, Opr_code 0, Opr_string ''away'', Opr_string ''h1'']"
  have h1: "drop 0 ?bad
     = Opr_source_line 3 # Opr_optional # concat (map emit_optional [Days 7])
         @ [Opr_code 9, Opr_string ''away'', Opr_string ''h1'']"
    by simp
  have h2: "corrupt_block_head [Opr_code 9, Opr_string ''away'', Opr_string ''h1'']"
    by (simp add: corrupt_block_head_def unknown_opt_code_def OPT_defs)
  have h3: "drop 0 ?good
     = Opr_source_line 3 # Opr_optional # concat (map emit_optional [Days 7, Mime])
         @ Opr_code 0 # Opr_string ''away'' # Opr_string ''h1'' # []"
    by simp
  from vacation_corrupt_optional_block[of 0 ?bad 3 "[Days 7]" "''away''" "''h1''" "[]"
      "[Opr_code 9, Opr_string ''away'', Opr_string ''h1'']" "\<lambda>res call. (0, res)" Inr "[]"]
    h1 h2
  have a: "\<exists>msg. ext_vacation_operation_execute (\<lambda>res call. (0, res)) Inr ?bad [] 0
        = (SIEVE_EXEC_BIN_CORRUPT, [], [Runtime_trace_error msg])"
    by blast
  from vacation_corrupt_optional_block[of 0 ?good 3 "[Days 7, Mime]" "''away''" "''h1''"
      "[]" "[]" "\<lambda>res call. (0, res)" Inr "[]"] h3
  have b: "ext_vacation_operation_read ?good 0
       = Inr (3, vacation_locals_init\<lparr> loc_days := 7, loc_mime := True \<rparr>,
              ''away'', ''h1'', 8)"
    by simp
  from a b h1 h2 show ?thesis by blast
qed

subsection \<open>The days of a vacation action\<close>

lemma read_days:
  assumes "ext_vacation_operation_read sbin address = Inr (line, l, r, h, a)"
  shows "loc_days l \<noteq> 0"
proof -
  have init: "loc_days vacation_locals_init \<noteq> 0" by (simp add: vacation_locals_init_def)
  from assms obtain a1 a3 where
    "(let (present, a2) = sieve_operand_optional_present sbin a1 in
        if present then vacation_optionals_loop sbin a2 vacation_locals_init
        else Inr (vacation_locals_init, a2)) = Inr (l, a3)"
    by (auto simp: ext_vacation_operation_read_def split: option.splits sum.splits)
  then show ?thesis using init loop_days
    by (auto simp: Let_def split: prod.splits if_splits)
qed

lemma word_ge_1: "(1 \<le> (w :: 64 word)) = (w \<noteq> 0)"
  by (simp add: word_le_nat_alt unat_gt_0 Suc_le_eq)

text \<open>The days after a well-formed block are those of its last \<open>:days\<close> pair.\<close>

lemma fold_assign_days:
  "loc_days (fold assign_optional opts l) =
     (if days_operands opts = [] then loc_days l
      else if List.last (days_operands opts) = 0 then 1 else List.last (days_operands opts))"
proof (induction opts arbitrary: l)
  case Nil
  then show ?case by simp
next
  case (Cons x opts)
  show ?case by (cases x) (simp_all add: Cons.IH)
qed

lemma read_no_block:
  assumes "drop address sbin = Opr_source_line n # Opr_string r # Opr_string h # rest"
  shows "ext_vacation_operation_read sbin address =
           Inr (n, vacation_locals_init, r, h, address + 3)"
proof -
  have d1: "drop (Suc address) sbin = Opr_string r # Opr_string h # rest"
    using assms by (rule drop_eq_Cons_Suc)
  have d2: "drop (Suc (Suc address)) sbin = Opr_string h # rest"
    using d1 by (rule drop_eq_Cons_Suc)
  show ?thesis
    by (simp add: ext_vacation_operation_read_def sieve_code_source_line_read_def
          sieve_operand_optional_present_def sieve_opr_string_read_def assms d1 d2)
qed

lemma execute_of_read:
  assumes "ext_vacation_operation_read sbin address = Inr (n, l, r, h, a)"
  shows "\<exists>ctx evs.
           ext_vacation_operation_execute add_action sieve_address_normalize sbin result address
             = ((if 0 \<le> fst (add_action result
                      \<lparr> call_action = act_vacation, call_source_line = Some n,
                        call_context = Vacation_context ctx \<rparr>) then 1 else 0),
                snd (add_action result
                      \<lparr> call_action = act_vacation, call_source_line = Some n,
                        call_context = Vacation_context ctx \<rparr>), evs)
           \<and> reason ctx = r \<and> handle ctx = h \<and> days ctx = loc_days l"
proof -
  obtain call evs where
    p: "ext_vacation_operation_perform sieve_address_normalize n l r h = (call, evs)"
    by (cases "ext_vacation_operation_perform sieve_address_normalize n l r h")
  then obtain ctx where
    c: "call = \<lparr> call_action = act_vacation, call_source_line = Some n,
                 call_context = Vacation_context ctx \<rparr>"
       "reason ctx = r" "handle ctx = h" "days ctx = loc_days l"
    by (auto simp: ext_vacation_operation_perform_def Let_def)
  have "ext_vacation_operation_execute add_action sieve_address_normalize sbin result address
          = ((if 0 \<le> fst (add_action result call) then 1 else 0),
             snd (add_action result call), evs)"
    using assms p by (simp add: ext_vacation_operation_execute_def split: prod.splits)
  with c show ?thesis by blast
qed


lemma example_execute_days:
  "ext_vacation_operation_execute example_add_action Inr
     [Opr_source_line 3, Opr_optional, Opr_code OPT_DAYS, Opr_number d, Opr_code 0,
      Opr_string ''away'', Opr_string ''h1''] [] 0
   = (1, [\<lparr> action = act_vacation, location = ''line 3'',
            act_context = Vacation_context
              \<lparr> reason = ''away'', days = (if d = 0 then 1 else d), subject = None,
                handle = ''h1'', mime = False, from_address = None,
                from_normalized = None, addresses = None \<rparr>,
            executed = False \<rparr>],
      [Runtime_trace ''VACATION action''])"
proof -
  let ?sbin = "[Opr_source_line 3, Opr_optional, Opr_code OPT_DAYS, Opr_number d,
                Opr_code 0, Opr_string ''away'', Opr_string ''h1'']"
  have "drop 0 ?sbin = Opr_source_line 3 # Opr_optional # concat (map emit_optional [Days d])
          @ Opr_code 0 # Opr_string ''away'' # Opr_string ''h1'' # []"
    by simp
  from read_wellformed_block[OF this]
  have rd: "ext_vacation_operation_read ?sbin 0 =
      Inr (3, fold assign_optional [Days d] vacation_locals_init, ''away'', ''h1'', 7)"
    by simp
  show ?thesis
    by (simp add: ext_vacation_operation_execute_def rd ext_vacation_operation_perform_def
          example_add_action_def vacation_locals_init_def Let_def)
qed

text \<open>
  Claim C2. \<open>:days\<close> is clamped at both stages. Validation: when the tag validator
  accepts, the parameter that followed the tag is a number \<open>d\<close>, and the argument list
  holds \<open>1\<close> in its place if \<open>d = 0\<close> and \<open>d\<close> otherwise, so the number in the AST is at
  least 1. Execution: whenever the operation does not stop with a corrupt binary, the
  result list it leaves is the one \<open>sieve_result_add_action\<close> returns for a vacation
  action whose days are at least 1. For a binary with a well-formed optional-operand
  block the operation hands \<open>sieve_result_add_action\<close> a vacation action with the
  reason and the handle read and with the days that the last \<open>:days\<close> pair of the block
  gives: 1 for a decoded 0, the decoded number otherwise, and 7 when the block has no
  such pair (\<open>spec_vacation_days\<close>); the status is the truth value of the engine's
  return value being non-negative and the result list is the engine's. For a binary
  without the block the days are 7.
\<close>

theorem vacation_days_clamped:
  "(cmd_vacation_validate_number_tag args i = (True, args', i') \<longrightarrow>
      Suc i < length args \<and> i' = Suc i \<and>
      (\<exists>d. args ! Suc i = SAAT_NUMBER d \<and>
           args' ! i = SAAT_NUMBER (if d = 0 then 1 else d)) \<and>
      1 \<le> sieve_ast_argument_number (args' ! i))
   \<and> (ext_vacation_operation_execute add_action sieve_address_normalize sbin result address
          = (status, result', evs) \<and> status \<noteq> SIEVE_EXEC_BIN_CORRUPT \<longrightarrow>
        (\<exists>call ctx. call_action call = act_vacation
           \<and> call_context call = Vacation_context ctx \<and> 1 \<le> days ctx
           \<and> result' = snd (add_action result call)))
   \<and> (drop address sbin =
         Opr_source_line n # Opr_optional # concat (map emit_optional opts)
           @ Opr_code 0 # Opr_string r # Opr_string h # rest \<longrightarrow>
        (\<exists>ctx evs'.
           ext_vacation_operation_execute add_action sieve_address_normalize sbin result address
             = ((if 0 \<le> fst (add_action result
                      \<lparr> call_action = act_vacation, call_source_line = Some n,
                        call_context = Vacation_context ctx \<rparr>) then 1 else 0),
                snd (add_action result
                      \<lparr> call_action = act_vacation, call_source_line = Some n,
                        call_context = Vacation_context ctx \<rparr>), evs')
           \<and> reason ctx = r \<and> handle ctx = h \<and> days ctx = spec_vacation_days opts))
   \<and> (drop address sbin = Opr_source_line n # Opr_string r # Opr_string h # rest \<longrightarrow>
        (\<exists>ctx evs'.
           ext_vacation_operation_execute add_action sieve_address_normalize sbin result address
             = ((if 0 \<le> fst (add_action result
                      \<lparr> call_action = act_vacation, call_source_line = Some n,
                        call_context = Vacation_context ctx \<rparr>) then 1 else 0),
                snd (add_action result
                      \<lparr> call_action = act_vacation, call_source_line = Some n,
                        call_context = Vacation_context ctx \<rparr>), evs')
           \<and> reason ctx = r \<and> handle ctx = h \<and> days ctx = 7))"
proof (intro conjI impI)
  assume v: "cmd_vacation_validate_number_tag args i = (True, args', i')"
  let ?args1 = "sieve_ast_arguments_detach args i"
  from v have ok: "i < length ?args1" "is_number_argument (?args1 ! i)"
    and i': "i' = Suc i"
    and a': "args' = (if sieve_ast_argument_number (?args1 ! i) = 0
                      then ?args1[i := SAAT_NUMBER 1] else ?args1)"
    by (auto simp: cmd_vacation_validate_number_tag_def Let_def
          sieve_validate_tag_parameter_number_def split: if_splits)
  from ok(1) have len: "Suc i < length args"
    by (cases "i < length args") (auto simp: sieve_ast_arguments_detach_def)
  then have nth: "?args1 ! i = args ! Suc i"
    by (simp add: sieve_ast_arguments_detach_def nth_append)
  from ok(2) nth obtain d where d: "args ! Suc i = SAAT_NUMBER d"
    by (cases "args ! Suc i") (auto simp: is_number_argument_def)
  have res: "args' ! i = SAAT_NUMBER (if d = 0 then 1 else d)"
    using a' nth d ok(1) by (simp add: sieve_ast_argument_number_def)
  show "Suc i < length args" by (rule len)
  show "i' = Suc i" by (rule i')
  show "\<exists>d. args ! Suc i = SAAT_NUMBER d \<and>
           args' ! i = SAAT_NUMBER (if d = 0 then 1 else d)"
    using d res by blast
  show "1 \<le> sieve_ast_argument_number (args' ! i)"
    using res by (simp add: sieve_ast_argument_number_def word_ge_1)
next
  assume e: "ext_vacation_operation_execute add_action sieve_address_normalize sbin result
      address = (status, result', evs) \<and> status \<noteq> SIEVE_EXEC_BIN_CORRUPT"
  then obtain line l r h a where
    rd: "ext_vacation_operation_read sbin address = Inr (line, l, r, h, a)"
    by (cases "ext_vacation_operation_read sbin address")
       (auto simp: ext_vacation_operation_execute_def)
  let ?call = "fst (ext_vacation_operation_perform sieve_address_normalize line l r h)"
  have "\<exists>ctx. call_context ?call = Vacation_context ctx \<and> days ctx = loc_days l"
    by (simp add: ext_vacation_operation_perform_def Let_def)
  moreover have "call_action ?call = act_vacation"
    by (simp add: ext_vacation_operation_perform_def Let_def)
  moreover have "loc_days l \<noteq> 0" using rd by (rule read_days)
  moreover have "result' = snd (add_action result ?call)"
    using e rd by (auto simp: ext_vacation_operation_execute_def split: prod.splits)
  ultimately show "\<exists>call ctx. call_action call = act_vacation
           \<and> call_context call = Vacation_context ctx \<and> 1 \<le> days ctx
           \<and> result' = snd (add_action result call)"
    by (metis word_ge_1)
next
  assume "drop address sbin =
         Opr_source_line n # Opr_optional # concat (map emit_optional opts)
           @ Opr_code 0 # Opr_string r # Opr_string h # rest"
  from read_wellformed_block[OF this]
  have rd: "ext_vacation_operation_read sbin address =
      Inr (n, fold assign_optional opts vacation_locals_init, r, h,
           address + length (concat (map emit_optional opts)) + 5)" .
  have "loc_days (fold assign_optional opts vacation_locals_init) = spec_vacation_days opts"
    by (simp add: fold_assign_days spec_vacation_days_def vacation_locals_init_def)
  with execute_of_read[OF rd, of add_action sieve_address_normalize result]
  show "\<exists>ctx evs'.
           ext_vacation_operation_execute add_action sieve_address_normalize sbin result address
             = ((if 0 \<le> fst (add_action result
                      \<lparr> call_action = act_vacation, call_source_line = Some n,
                        call_context = Vacation_context ctx \<rparr>) then 1 else 0),
                snd (add_action result
                      \<lparr> call_action = act_vacation, call_source_line = Some n,
                        call_context = Vacation_context ctx \<rparr>), evs')
           \<and> reason ctx = r \<and> handle ctx = h \<and> days ctx = spec_vacation_days opts"
    by simp
next
  assume "drop address sbin = Opr_source_line n # Opr_string r # Opr_string h # rest"
  from read_no_block[OF this]
  have rd: "ext_vacation_operation_read sbin address =
      Inr (n, vacation_locals_init, r, h, address + 3)" .
  have "loc_days vacation_locals_init = 7" by (simp add: vacation_locals_init_def)
  with execute_of_read[OF rd, of add_action sieve_address_normalize result]
  show "\<exists>ctx evs'.
           ext_vacation_operation_execute add_action sieve_address_normalize sbin result address
             = ((if 0 \<le> fst (add_action result
                      \<lparr> call_action = act_vacation, call_source_line = Some n,
                        call_context = Vacation_context ctx \<rparr>) then 1 else 0),
                snd (add_action result
                      \<lparr> call_action = act_vacation, call_source_line = Some n,
                        call_context = Vacation_context ctx \<rparr>), evs')
           \<and> reason ctx = r \<and> handle ctx = h \<and> days ctx = 7"
    by simp
qed

theorem vacation_days_clamped_witness:
  "cmd_vacation_validate_number_tag
     [SAAT_TAG ''days'', SAAT_NUMBER 0, SAAT_STRING ''away''] 0
     = (True, [SAAT_NUMBER 1, SAAT_STRING ''away''], 1)
   \<and> 1 \<le> sieve_ast_argument_number ([SAAT_NUMBER 1, SAAT_STRING ''away''] ! 0)
   \<and> drop 0 [Opr_source_line 3, Opr_optional, Opr_code OPT_DAYS, Opr_number 0, Opr_code 0,
             Opr_string ''away'', Opr_string ''h1'']
      = Opr_source_line 3 # Opr_optional # concat (map emit_optional [Days 0])
          @ Opr_code 0 # Opr_string ''away'' # Opr_string ''h1'' # []
   \<and> spec_vacation_days [Days 0] = 1
   \<and> (\<exists>ctx. ext_vacation_operation_execute example_add_action Inr
          [Opr_source_line 3, Opr_optional, Opr_code OPT_DAYS, Opr_number 0, Opr_code 0,
           Opr_string ''away'', Opr_string ''h1''] [] 0
        = (1, [\<lparr> action = act_vacation, location = ''line 3'',
                 act_context = Vacation_context ctx, executed = False \<rparr>],
           [Runtime_trace ''VACATION action''])
        \<and> days ctx = 1)
   \<and> drop 0 [Opr_source_line 3, Opr_optional, Opr_code OPT_DAYS, Opr_number 30, Opr_code 0,
             Opr_string ''away'', Opr_string ''h1'']
      = Opr_source_line 3 # Opr_optional # concat (map emit_optional [Days 30])
          @ Opr_code 0 # Opr_string ''away'' # Opr_string ''h1'' # []
   \<and> spec_vacation_days [Days 30] = 30
   \<and> (\<exists>ctx. ext_vacation_operation_execute example_add_action Inr
          [Opr_source_line 3, Opr_optional, Opr_code OPT_DAYS, Opr_number 30, Opr_code 0,
           Opr_string ''away'', Opr_string ''h1''] [] 0
        = (1, [\<lparr> action = act_vacation, location = ''line 3'',
                 act_context = Vacation_context ctx, executed = False \<rparr>],
           [Runtime_trace ''VACATION action''])
        \<and> days ctx = 30)"
proof -
  let ?args = "[SAAT_TAG ''days'', SAAT_NUMBER 0, SAAT_STRING ''away'']"
  let ?sbin0 = "[Opr_source_line 3, Opr_optional, Opr_code OPT_DAYS, Opr_number 0,
                 Opr_code 0, Opr_string ''away'', Opr_string ''h1'']"
  let ?sbin30 = "[Opr_source_line 3, Opr_optional, Opr_code OPT_DAYS, Opr_number 30,
                  Opr_code 0, Opr_string ''away'', Opr_string ''h1'']"
  have v: "cmd_vacation_validate_number_tag ?args 0
             = (True, [SAAT_NUMBER 1, SAAT_STRING ''away''], 1)"
    by (simp add: cmd_vacation_validate_number_tag_def sieve_ast_arguments_detach_def
          sieve_validate_tag_parameter_number_def is_number_argument_def
          sieve_ast_argument_number_def Let_def)
  have d0: "drop 0 ?sbin0
      = Opr_source_line 3 # Opr_optional # concat (map emit_optional [Days 0])
          @ Opr_code 0 # Opr_string ''away'' # Opr_string ''h1'' # []"
    by simp
  have d30: "drop 0 ?sbin30
      = Opr_source_line 3 # Opr_optional # concat (map emit_optional [Days 30])
          @ Opr_code 0 # Opr_string ''away'' # Opr_string ''h1'' # []"
    by simp
  have s0: "spec_vacation_days [Days 0] = 1" by (simp add: spec_vacation_days_def)
  have s30: "spec_vacation_days [Days 30] = 30" by (simp add: spec_vacation_days_def)
  have e0: "ext_vacation_operation_execute example_add_action Inr ?sbin0 [] 0
      = (1, [\<lparr> action = act_vacation, location = ''line 3'',
               act_context = Vacation_context
                 \<lparr> reason = ''away'', days = 1, subject = None,
                   handle = ''h1'', mime = False, from_address = None,
                   from_normalized = None, addresses = None \<rparr>,
               executed = False \<rparr>],
         [Runtime_trace ''VACATION action''])"
    using example_execute_days[of 0] by simp
  have e30: "ext_vacation_operation_execute example_add_action Inr ?sbin30 [] 0
      = (1, [\<lparr> action = act_vacation, location = ''line 3'',
               act_context = Vacation_context
                 \<lparr> reason = ''away'', days = 30, subject = None,
                   handle = ''h1'', mime = False, from_address = None,
                   from_normalized = None, addresses = None \<rparr>,
               executed = False \<rparr>],
         [Runtime_trace ''VACATION action''])"
    using example_execute_days[of 30] by simp
  have st: "(1 :: int) \<noteq> SIEVE_EXEC_BIN_CORRUPT" by (simp add: SIEVE_EXEC_BIN_CORRUPT_def)
  note t0 = vacation_days_clamped[of ?args 0 "[SAAT_NUMBER 1, SAAT_STRING ''away'']" 1
      example_add_action Inr ?sbin0 "[]" 0 1 _ _ 3 "[Days 0]" "''away''" "''h1''" "[]"]
  note t30 = vacation_days_clamped[of ?args 0 "[SAAT_NUMBER 1, SAAT_STRING ''away'']" 1
      example_add_action Inr ?sbin30 "[]" 0 1 _ _ 3 "[Days 30]" "''away''" "''h1''" "[]"]
  from t0 v have a: "1 \<le> sieve_ast_argument_number ([SAAT_NUMBER 1, SAAT_STRING ''away''] ! 0)"
    by blast
  from t0 d0 s0 e0 have b: "\<exists>ctx. ext_vacation_operation_execute example_add_action Inr ?sbin0 [] 0
        = (1, [\<lparr> action = act_vacation, location = ''line 3'',
                 act_context = Vacation_context ctx, executed = False \<rparr>],
           [Runtime_trace ''VACATION action''])
        \<and> days ctx = 1"
    by (auto simp: example_add_action_def)
  from t30 d30 s30 e30 have c: "\<exists>ctx. ext_vacation_operation_execute example_add_action Inr ?sbin30 [] 0
        = (1, [\<lparr> action = act_vacation, location = ''line 3'',
                 act_context = Vacation_context ctx, executed = False \<rparr>],
           [Runtime_trace ''VACATION action''])
        \<and> days ctx = 30"
    by (auto simp: example_add_action_def)
  from v a d0 s0 b d30 s30 c show ?thesis by blast
qed

section \<open>Properties of the duplicate_mark action\<close>

text \<open>
  Claim C3. The finish hook of the \<open>duplicate_mark\<close> action records the duplicate only
  for the status \<open>SIEVE_EXEC_OK\<close>: with the host's duplicate store present (the test
  adds the action only then), that status gives exactly one call of the host's
  \<open>duplicate_mark\<close>, for the action's hash and the time \<open>ioloop_time + period\<close>; every
  other status gives no call at all.
\<close>

theorem duplicate_mark_only_on_ok:
  "(sieve_action_duplicate_check_available senv \<and> status = SIEVE_EXEC_OK \<longrightarrow>
      act_duplicate_mark_finish senv ioloop_time data status =
        [Duplicate_mark (hash data) (username senv) (ioloop_time + ucast (period data))])
   \<and> (status \<noteq> SIEVE_EXEC_OK \<longrightarrow>
        act_duplicate_mark_finish senv ioloop_time data status = [])"
  by (simp add: act_duplicate_mark_finish_def sieve_action_duplicate_mark_def)

theorem duplicate_mark_only_on_ok_witness:
  "sieve_action_duplicate_check_available host_env
   \<and> act_duplicate_mark_finish host_env 1000
        \<lparr> mark_handle = None, period = 60, hash = ''d1'', last = False \<rparr> SIEVE_EXEC_OK
      = [Duplicate_mark ''d1'' (Some ''jane'') 1060]
   \<and> SIEVE_EXEC_FAILURE \<noteq> SIEVE_EXEC_OK
   \<and> act_duplicate_mark_finish host_env 1000
        \<lparr> mark_handle = None, period = 60, hash = ''d1'', last = False \<rparr> SIEVE_EXEC_FAILURE
      = []"
proof -
  have a: "sieve_action_duplicate_check_available host_env"
    by (simp add: sieve_action_duplicate_check_available_def host_env_def)
  have b: "SIEVE_EXEC_FAILURE \<noteq> SIEVE_EXEC_OK"
    by (simp add: SIEVE_EXEC_FAILURE_def SIEVE_EXEC_OK_def)
  from duplicate_mark_only_on_ok[of host_env SIEVE_EXEC_OK 1000
      "\<lparr> mark_handle = None, period = 60, hash = ''d1'', last = False \<rparr>"]
    duplicate_mark_only_on_ok[of host_env SIEVE_EXEC_FAILURE 1000
      "\<lparr> mark_handle = None, period = 60, hash = ''d1'', last = False \<rparr>"] a b
  show ?thesis by (simp add: host_env_def)
qed

section \<open>Properties of the vacation action\<close>

subsection \<open>Runtime verification\<close>















text \<open>
  Claim C5. The duplicate hook of the vacation action, called for a vacation action
  \<open>act\<close> and a vacation action \<open>act_other\<close> already in the result, returns \<open>-1\<close> with
  a runtime error at the location of \<open>act\<close> that names the location of the earlier
  one, unless that one was executed in a preceding script: then it returns \<open>1\<close> and
  reports nothing. The hook does not look at the contexts, so this holds in particular
  for equal contexts.
\<close>

theorem vacation_duplicate_action:
  "(\<not> executed act_other \<longrightarrow>
      act_vacation_check_duplicate act act_other =
        (- 1, [Runtime_error (Location (location act))
                 (''duplicate vacation action not allowed ''
                    @ ''(previously triggered one was here: %s)'')
                 [Str (Some (location act_other))]]))
   \<and> (executed act_other \<longrightarrow> act_vacation_check_duplicate act act_other = (1, []))"
  by (simp add: act_vacation_check_duplicate_def)

theorem vacation_duplicate_action_witness:
  "\<not> executed example_vacation
   \<and> act_vacation_check_duplicate (example_vacation\<lparr> location := ''line 9'' \<rparr>)
        example_vacation =
       (- 1, [Runtime_error (Location ''line 9'')
                (''duplicate vacation action not allowed ''
                   @ ''(previously triggered one was here: %s)'')
                [Str (Some ''line 5'')]])
   \<and> act_vacation_check_duplicate (example_vacation\<lparr> location := ''line 9'' \<rparr>)
        (example_vacation\<lparr> executed := True \<rparr>) = (1, [])"
proof -
  have e: "\<not> executed example_vacation" by (simp add: example_vacation_def)
  from vacation_duplicate_action[of example_vacation
      "example_vacation\<lparr> location := ''line 9'' \<rparr>"]
    vacation_duplicate_action[of "example_vacation\<lparr> executed := True \<rparr>"
      "example_vacation\<lparr> location := ''line 9'' \<rparr>"] e
  show ?thesis by (simp add: example_vacation_def)
qed

subsection \<open>Commit\<close>

text \<open>
  Claim C10. With an unset or empty return path the commit logs "discarded vacation
  reply to <>" and returns \<open>TRUE\<close>; with a return path equal to the recipient address
  it logs "discarded vacation reply to own address" and returns \<open>TRUE\<close>. Nothing else
  happens in either case: no check of the duplicate store and no SMTP session.
\<close>

theorem vacation_commit_sender_edge_cases:
  "(return_path msgdata = None \<or> return_path msgdata = Some [] \<longrightarrow>
      act_vacation_commit md5 parse senv msgdata ioloop_time ctx dupl_hash0 =
        Inr (True, ctx, [Result_log ''discarded vacation reply to <>'' []]))
   \<and> (return_path msgdata = Some r \<and> r \<noteq> [] \<and> to_address msgdata = Some r \<longrightarrow>
        act_vacation_commit md5 parse senv msgdata ioloop_time ctx dupl_hash0 =
          Inr (True, ctx, [Result_log ''discarded vacation reply to own address'' []]))"
  by (auto simp: act_vacation_commit_def split: list.splits)

theorem vacation_commit_sender_edge_cases_witness:
  "act_vacation_commit id example_parse host_env
     (example_msgdata\<lparr> return_path := None \<rparr>) 1000 example_ctx []
     = Inr (True, example_ctx, [Result_log ''discarded vacation reply to <>'' []])
   \<and> act_vacation_commit id example_parse host_env
       (example_msgdata\<lparr> return_path := Some [] \<rparr>) 1000 example_ctx []
     = Inr (True, example_ctx, [Result_log ''discarded vacation reply to <>'' []])
   \<and> act_vacation_commit id example_parse host_env
       (example_msgdata\<lparr> return_path := Some ''jane@example.org'' \<rparr>) 1000 example_ctx []
     = Inr (True, example_ctx, [Result_log ''discarded vacation reply to own address'' []])"
proof -
  have a: "return_path (example_msgdata\<lparr> return_path := None \<rparr>) = None" by simp
  have b: "return_path (example_msgdata\<lparr> return_path := Some [] \<rparr>) = Some []" by simp
  have c: "return_path (example_msgdata\<lparr> return_path := Some ''jane@example.org'' \<rparr>)
             = Some ''jane@example.org'' \<and> ''jane@example.org'' \<noteq> []
           \<and> to_address (example_msgdata\<lparr> return_path := Some ''jane@example.org'' \<rparr>)
             = Some ''jane@example.org''"
    by (simp add: example_msgdata_def)
  from vacation_commit_sender_edge_cases[of "example_msgdata\<lparr> return_path := None \<rparr>"
         id example_parse host_env 1000 example_ctx "[]"]
       vacation_commit_sender_edge_cases[of "example_msgdata\<lparr> return_path := Some [] \<rparr>"
         id example_parse host_env 1000 example_ctx "[]"]
       vacation_commit_sender_edge_cases[of
         "example_msgdata\<lparr> return_path := Some ''jane@example.org'' \<rparr>"
         id example_parse host_env 1000 example_ctx "[]" "''jane@example.org''"]
       a b c
  show ?thesis by simp
qed

lemma send_no_smtp:
  "smtp_open senv = None \<or> smtp_close senv = None \<Longrightarrow>
   act_vacation_send senv msgdata ioloop_time ctx =
     (True, [Result_warning ''vacation action has no means to send mail.''])"
  by (auto simp: act_vacation_send_def split: option.splits)

lemma send_true: "fst (act_vacation_send senv msgdata ioloop_time ctx)"
  by (simp add: act_vacation_send_def Let_def split: option.splits)

lemma send_ret: "act_vacation_send senv msgdata ioloop_time ctx = (ok, evs) \<Longrightarrow> ok"
  using send_true[of senv msgdata ioloop_time ctx] by simp

lemma send_no_mark:
  "\<not> list_ex is_duplicate_mark (snd (act_vacation_send senv msgdata ioloop_time ctx))"
  by (simp add: act_vacation_send_def Let_def split: option.splits list.splits)

lemma commit_discarded_duplicate:
  assumes "return_path msgdata = Some r" "r \<noteq> []" "to_address msgdata = Some t" "r \<noteq> t"
    and "duplicate_check senv = Some chk"
    and "chk (act_vacation_hash md5 r ctx) (username senv)"
  shows "act_vacation_commit md5 parse senv msgdata ioloop_time ctx dupl_hash0 =
     Inr (True, ctx,
       [Duplicate_check (act_vacation_hash md5 r ctx) (username senv),
        Result_log ''discarded duplicate vacation response to <%s>''
          [Sanitized (Some r) 128]])"
  using assms by (cases r) (simp_all add: act_vacation_commit_def Let_def)

lemma commit_send_outcome:
  assumes "commit_send senv msgdata ioloop_time ctx rpath dupl_hash ev_chk = Inr (ok, ctx', evs)"
  shows "ok \<and> days ctx' = days ctx
     \<and> evs = ev_chk @ snd (act_vacation_send senv msgdata ioloop_time ctx')
            @ [Result_log ''sent vacation response to <%s>'' [Sanitized (Some rpath) 128]]
            @ (case duplicate_mark senv of
                 None \<Rightarrow> []
               | Some mark \<Rightarrow>
                   [Duplicate_mark dupl_hash (username senv)
                      (ioloop_time + days ctx * (24 * 60 * 60))])"
proof -
  define c where "c = (if subject ctx = None \<or> subject ctx = Some [] then
               (case mail_get_headers_utf8 (msg_mail msgdata) ''subject'' of
                  Some (h # hs) \<Rightarrow> ctx\<lparr> subject := Some (''Auto: '' @ h) \<rparr>
                | _ \<Rightarrow> ctx\<lparr> subject := Some ''Automated reply'' \<rparr>)
             else ctx)"
  have d: "days c = days ctx"
    by (simp add: c_def split: option.splits list.splits)
  obtain sent ev_send where s: "act_vacation_send senv msgdata ioloop_time c = (sent, ev_send)"
    by (cases "act_vacation_send senv msgdata ioloop_time c")
  then have sent by (rule send_ret)
  with assms s d show ?thesis
    by (auto simp: commit_send_def Let_def c_def[symmetric] split: option.splits)
qed

lemma commit_checks_outcome:
  assumes "commit_checks parse senv msgdata ioloop_time ctx rpath to_addr dupl_hash ev_chk
             = Inr (ok, ctx', evs)"
  shows "(\<exists>msg args. ok \<and> ctx' = ctx \<and> evs = ev_chk @ [Result_log msg args])
     \<or> commit_send senv msgdata ioloop_time ctx rpath dupl_hash ev_chk = Inr (ok, ctx', evs)"
  using assms
  by (auto simp: commit_checks_def Let_def
        split: if_splits option.splits sum.splits bool.splits)

text \<open>The shape of every normal return of the commit.\<close>

lemma commit_outcome:
  assumes "act_vacation_commit md5 parse senv msgdata ioloop_time ctx dupl_hash0
             = Inr (ok, ctx', evs)"
  shows "ok \<and> days ctx' = days ctx \<and>
     ((\<not> list_ex is_smtp_event evs \<and> \<not> list_ex is_duplicate_mark evs)
      \<or> (\<exists>r. return_path msgdata = Some r \<and> r \<noteq> []
            \<and> evs = commit_check_events md5 senv ctx r
                  @ snd (act_vacation_send senv msgdata ioloop_time ctx')
                  @ [Result_log ''sent vacation response to <%s>'' [Sanitized (Some r) 128]]
                  @ commit_mark_events md5 senv ioloop_time ctx dupl_hash0 r))"
proof (cases "return_path msgdata")
  case None
  with assms show ?thesis by (auto simp: act_vacation_commit_def)
next
  case (Some r)
  show ?thesis
  proof (cases r)
    case Nil
    with assms Some show ?thesis by (auto simp: act_vacation_commit_def)
  next
    case (Cons c cs)
    then have rne: "r \<noteq> []" by simp
    from assms Some Cons obtain t where t: "to_address msgdata = Some t"
      by (cases "to_address msgdata") (auto simp: act_vacation_commit_def)
    show ?thesis
    proof (cases "r = t")
      case True
      with assms Some Cons t show ?thesis by (auto simp: act_vacation_commit_def)
    next
      case False
      show ?thesis
      proof (cases "duplicate_check senv")
        case None
        with assms Some Cons t False
        have cc: "commit_checks parse senv msgdata ioloop_time ctx r t dupl_hash0 []
                    = Inr (ok, ctx', evs)"
          by (simp add: act_vacation_commit_def)
        from commit_checks_outcome[OF cc] show ?thesis
        proof
          assume "\<exists>msg args. ok \<and> ctx' = ctx \<and> evs = [] @ [Result_log msg args]"
          then show ?thesis by auto
        next
          assume "commit_send senv msgdata ioloop_time ctx r dupl_hash0 [] = Inr (ok, ctx', evs)"
          from commit_send_outcome[OF this] Some rne None show ?thesis
            by (simp add: commit_check_events_def commit_mark_events_def
                  split: option.splits)
        qed
      next
        case (Some chk)
        let ?h = "act_vacation_hash md5 r ctx"
        show ?thesis
        proof (cases "chk ?h (username senv)")
          case True
          with assms \<open>return_path msgdata = Some r\<close> Cons t False Some show ?thesis
            by (auto simp: act_vacation_commit_def Let_def)
        next
          case nd: False
          with assms \<open>return_path msgdata = Some r\<close> Cons t False Some
          have cc: "commit_checks parse senv msgdata ioloop_time ctx r t ?h
                      [Duplicate_check ?h (username senv)] = Inr (ok, ctx', evs)"
            by (simp add: act_vacation_commit_def Let_def)
          from commit_checks_outcome[OF cc] show ?thesis
          proof
            assume "\<exists>msg args. ok \<and> ctx' = ctx
                      \<and> evs = [Duplicate_check ?h (username senv)] @ [Result_log msg args]"
            then show ?thesis by auto
          next
            assume "commit_send senv msgdata ioloop_time ctx r ?h
                      [Duplicate_check ?h (username senv)] = Inr (ok, ctx', evs)"
            from commit_send_outcome[OF this] \<open>return_path msgdata = Some r\<close> rne Some
            show ?thesis
              by (simp add: commit_check_events_def commit_mark_events_def
                    split: option.splits)
          qed
        qed
      qed
    qed
  qed
qed

lemma filter_mark_events:
  "filter is_duplicate_mark (commit_check_events md5 senv ctx r) = []"
  "duplicate_mark senv = Some mark \<Longrightarrow>
   filter is_duplicate_mark (commit_mark_events md5 senv ioloop_time ctx h0 r) =
     [Duplicate_mark (case duplicate_check senv of None \<Rightarrow> h0
                      | Some chk \<Rightarrow> act_vacation_hash md5 r ctx)
        (username senv) (ioloop_time + days ctx * 86400)]"
  by (simp_all add: commit_check_events_def commit_mark_events_def split: option.splits)

lemma filter_send_marks:
  "filter is_duplicate_mark (snd (act_vacation_send senv msgdata ioloop_time ctx)) = []"
  using send_no_mark[of senv msgdata ioloop_time ctx]
  by (simp add: list_ex_iff filter_empty_conv)

lemma expiry_seconds:
  "unat (now :: time_t) + unat (d :: sieve_number_t) * 86400 < 2 ^ 64 \<Longrightarrow>
   unat (now + d * 86400) = unat now + unat d * 86400"
  by (simp add: unat_word_ariths)

text \<open>The example delivery passes every check of the commit and is answered.\<close>

lemma example_is_system: "\<not> is_system_address ''bob@example.com''"
  by code_simp

lemma example_addressed:
  "addressed_to_me example_parse example_mail ''jane@example.org'' None my_address_headers
     = Inr True"
  by (simp add: my_address_headers_def example_mail_def example_parse_def)

lemma example_checks:
  "commit_checks example_parse senv example_msgdata t example_ctx
      ''bob@example.com'' ''jane@example.org'' h evs
    = commit_send senv example_msgdata t example_ctx ''bob@example.com'' h evs"
  using example_is_system example_addressed
  by (simp add: commit_checks_def Let_def list_headers_def example_msgdata_def
        example_mail_def example_ctx_def)

lemma example_commit_sent:
  "act_vacation_commit id example_parse host_env example_msgdata 1000 example_ctx [] =
     Inr (True, example_ctx,
       [Duplicate_check ''bob@example.comh1'' (Some ''jane'')]
       @ snd (act_vacation_send host_env example_msgdata 1000 example_ctx)
       @ [Result_log ''sent vacation response to <%s>''
            [Sanitized (Some ''bob@example.com'') 128],
          Duplicate_mark ''bob@example.comh1'' (Some ''jane'') 605800])"
proof -
  have snd: "commit_send host_env example_msgdata 1000 example_ctx ''bob@example.com''
        ''bob@example.comh1'' [Duplicate_check ''bob@example.comh1'' (Some ''jane'')]
    = Inr (True, example_ctx,
       [Duplicate_check ''bob@example.comh1'' (Some ''jane'')]
       @ snd (act_vacation_send host_env example_msgdata 1000 example_ctx)
       @ [Result_log ''sent vacation response to <%s>''
            [Sanitized (Some ''bob@example.com'') 128],
          Duplicate_mark ''bob@example.comh1'' (Some ''jane'') 605800])"
  proof -
    obtain evs where e: "act_vacation_send host_env example_msgdata 1000 example_ctx
        = (True, evs)"
      using send_true[of host_env example_msgdata 1000 example_ctx]
      by (cases "act_vacation_send host_env example_msgdata 1000 example_ctx") auto
    have f: "subject example_ctx = Some ''Away''" "days example_ctx = 7"
        "duplicate_mark host_env = Some (\<lambda>h u t. ())" "username host_env = Some ''jane''"
      by (simp_all add: example_ctx_def host_env_def)
    show ?thesis by (simp add: commit_send_def Let_def e f)
  qed
  have f: "return_path example_msgdata = Some ''bob@example.com''"
      "to_address example_msgdata = Some ''jane@example.org''"
      "duplicate_check host_env = Some (\<lambda>h u. False)" "username host_env = Some ''jane''"
      "act_vacation_hash id ''bob@example.com'' example_ctx = ''bob@example.comh1''"
    by (simp_all add: example_msgdata_def host_env_def act_vacation_hash_def example_ctx_def)
  show ?thesis
    by (simp add: act_vacation_commit_def Let_def f example_checks snd)
qed

lemma example_send_smtp:
  "list_ex is_smtp_event (snd (act_vacation_send host_env example_msgdata 1000 example_ctx))"
  by (simp add: act_vacation_send_def host_env_def Let_def)

text \<open>
  Claim C6. When the commit gets to the duplicate check (the return path is set and is
  not the recipient address) and the host's \<open>duplicate_check\<close> answers yes for the
  digest of return path and handle, the commit logs "discarded duplicate vacation
  response", returns \<open>TRUE\<close> and does nothing else: no SMTP event. And whenever a
  commit opens an SMTP session on a host that provides \<open>duplicate_mark\<close>, it returns
  \<open>TRUE\<close> and calls \<open>duplicate_mark\<close> exactly once, with the expiry time
  \<open>ioloop_time + days * 86400\<close> (64-bit arithmetic; \<open>expiry_seconds\<close> reads it as a
  number of seconds) and, if the host has a \<open>duplicate_check\<close>, with that same digest.
\<close>

theorem vacation_commit_duplicate_and_mark:
  "(return_path msgdata = Some r \<and> r \<noteq> [] \<and> to_address msgdata = Some t \<and> r \<noteq> t
      \<and> duplicate_check senv = Some chk
      \<and> chk (act_vacation_hash md5 r ctx) (username senv) \<longrightarrow>
    act_vacation_commit md5 parse senv msgdata ioloop_time ctx dupl_hash0 =
      Inr (True, ctx,
        [Duplicate_check (act_vacation_hash md5 r ctx) (username senv),
         Result_log ''discarded duplicate vacation response to <%s>''
           [Sanitized (Some r) 128]]))
   \<and> (act_vacation_commit md5 parse senv msgdata ioloop_time ctx dupl_hash0
         = Inr (ok, ctx', evs)
       \<and> list_ex is_smtp_event evs \<and> duplicate_mark senv = Some mark \<longrightarrow>
       ok \<and> (\<exists>r h. return_path msgdata = Some r
                 \<and> (duplicate_check senv \<noteq> None \<longrightarrow> h = act_vacation_hash md5 r ctx)
                 \<and> filter is_duplicate_mark evs =
                     [Duplicate_mark h (username senv)
                        (ioloop_time + days ctx * 86400)]))"
proof (intro conjI impI)
  assume "return_path msgdata = Some r \<and> r \<noteq> [] \<and> to_address msgdata = Some t \<and> r \<noteq> t
      \<and> duplicate_check senv = Some chk
      \<and> chk (act_vacation_hash md5 r ctx) (username senv)"
  then show "act_vacation_commit md5 parse senv msgdata ioloop_time ctx dupl_hash0 =
      Inr (True, ctx,
        [Duplicate_check (act_vacation_hash md5 r ctx) (username senv),
         Result_log ''discarded duplicate vacation response to <%s>''
           [Sanitized (Some r) 128]])"
    by (simp add: commit_discarded_duplicate)
next
  assume a: "act_vacation_commit md5 parse senv msgdata ioloop_time ctx dupl_hash0
         = Inr (ok, ctx', evs)
       \<and> list_ex is_smtp_event evs \<and> duplicate_mark senv = Some mark"
  then have c: "act_vacation_commit md5 parse senv msgdata ioloop_time ctx dupl_hash0
         = Inr (ok, ctx', evs)" and s: "list_ex is_smtp_event evs"
    and m: "duplicate_mark senv = Some mark" by simp_all
  from commit_outcome[OF c] s show ok by simp
  from commit_outcome[OF c] s obtain r where
    r: "return_path msgdata = Some r"
    and evs: "evs = commit_check_events md5 senv ctx r
                  @ snd (act_vacation_send senv msgdata ioloop_time ctx')
                  @ [Result_log ''sent vacation response to <%s>'' [Sanitized (Some r) 128]]
                  @ commit_mark_events md5 senv ioloop_time ctx dupl_hash0 r"
    by auto
  let ?h = "case duplicate_check senv of None \<Rightarrow> dupl_hash0
            | Some chk \<Rightarrow> act_vacation_hash md5 r ctx"
  have "filter is_duplicate_mark evs =
          [Duplicate_mark ?h (username senv) (ioloop_time + days ctx * 86400)]"
    unfolding evs by (simp add: filter_mark_events(2)[OF m] filter_mark_events(1) filter_send_marks)
  moreover have "duplicate_check senv \<noteq> None \<longrightarrow> ?h = act_vacation_hash md5 r ctx"
    by (simp split: option.splits)
  ultimately show "\<exists>r h. return_path msgdata = Some r
                 \<and> (duplicate_check senv \<noteq> None \<longrightarrow> h = act_vacation_hash md5 r ctx)
                 \<and> filter is_duplicate_mark evs =
                     [Duplicate_mark h (username senv)
                        (ioloop_time + days ctx * 86400)]"
    using r by blast
qed

theorem vacation_commit_duplicate_and_mark_witness:
  "act_vacation_commit id example_parse host_env_seen example_msgdata 1000 example_ctx []
     = Inr (True, example_ctx,
         [Duplicate_check ''bob@example.comh1'' (Some ''jane''),
          Result_log ''discarded duplicate vacation response to <%s>''
            [Sanitized (Some ''bob@example.com'') 128]])
   \<and> (\<exists>evs. act_vacation_commit id example_parse host_env example_msgdata 1000
                example_ctx [] = Inr (True, example_ctx, evs)
            \<and> list_ex is_smtp_event evs
            \<and> filter is_duplicate_mark evs =
                [Duplicate_mark ''bob@example.comh1'' (Some ''jane'') 605800])"
proof -
  have h1: "return_path example_msgdata = Some ''bob@example.com''
      \<and> ''bob@example.com'' \<noteq> [] \<and> to_address example_msgdata = Some ''jane@example.org''
      \<and> ''bob@example.com'' \<noteq> ''jane@example.org''
      \<and> duplicate_check host_env_seen = Some (\<lambda>h u. True)
      \<and> (\<lambda>h u. True) (act_vacation_hash id ''bob@example.com'' example_ctx)
            (username host_env_seen)"
    by (simp add: example_msgdata_def host_env_seen_def host_env_def)
  have hs: "act_vacation_hash id ''bob@example.com'' example_ctx = ''bob@example.comh1''"
      "username host_env_seen = Some ''jane''" "username host_env = Some ''jane''"
      "days example_ctx = 7"
    by (simp_all add: act_vacation_hash_def example_ctx_def host_env_seen_def host_env_def)
  let ?evs = "[Duplicate_check ''bob@example.comh1'' (Some ''jane'')]
       @ snd (act_vacation_send host_env example_msgdata 1000 example_ctx)
       @ [Result_log ''sent vacation response to <%s>''
            [Sanitized (Some ''bob@example.com'') 128],
          Duplicate_mark ''bob@example.comh1'' (Some ''jane'') 605800]"
  have h2: "act_vacation_commit id example_parse host_env example_msgdata 1000
              example_ctx [] = Inr (True, example_ctx, ?evs)
      \<and> list_ex is_smtp_event ?evs
      \<and> duplicate_mark host_env = Some (\<lambda>h u t. ())"
    using example_commit_sent example_send_smtp by (simp add: host_env_def)
  from vacation_commit_duplicate_and_mark[of example_msgdata "''bob@example.com''"
      "''jane@example.org''" host_env_seen "\<lambda>h u. True" id example_ctx example_parse 1000
      "[]"] h1 hs
  have a: "act_vacation_commit id example_parse host_env_seen example_msgdata 1000
      example_ctx [] = Inr (True, example_ctx,
         [Duplicate_check ''bob@example.comh1'' (Some ''jane''),
          Result_log ''discarded duplicate vacation response to <%s>''
            [Sanitized (Some ''bob@example.com'') 128]])"
    by simp
  from vacation_commit_duplicate_and_mark[of example_msgdata _ _ host_env _ id example_ctx
      example_parse 1000 "[]" True example_ctx ?evs "\<lambda>h u t. ()"] h2 hs
  have "\<exists>h. filter is_duplicate_mark ?evs = [Duplicate_mark h (Some ''jane'') 605800]"
    by auto
  then have "filter is_duplicate_mark ?evs =
      [Duplicate_mark ''bob@example.comh1'' (Some ''jane'') 605800]"
    by (auto simp: filter_send_marks)
  with a h2 show ?thesis by blast
qed

text \<open>
  Claim C8. A capability the host does not provide gives a warning and no error.
  Without \<open>duplicate_check\<close> the duplicate test warns and returns 0, leaving the
  message context and the result as they were. Without \<open>smtp_open\<close> or \<open>smtp_close\<close>
  the vacation send warns, opens no SMTP session and returns \<open>TRUE\<close>, and every commit
  on such a host that returns at all returns \<open>TRUE\<close> without any SMTP event.
\<close>

theorem missing_capability_degrades:
  "(duplicate_check senv = None \<longrightarrow>
      ext_duplicate_check md5 add_action senv msgctx result handle_s value_s period_n last_f =
        (0, msgctx, result,
         [Runtime_warning
            ''duplicate test: duplicate checking not available in this context'']))
   \<and> (smtp_open senv = None \<or> smtp_close senv = None \<longrightarrow>
        act_vacation_send senv msgdata ioloop_time ctx =
          (True, [Result_warning ''vacation action has no means to send mail.''])
        \<and> (\<forall>ok ctx' evs.
              act_vacation_commit md5 parse senv msgdata ioloop_time ctx dupl_hash0
                = Inr (ok, ctx', evs) \<longrightarrow>
              ok \<and> \<not> list_ex is_smtp_event evs))"
proof (intro conjI impI allI)
  assume "duplicate_check senv = None"
  then show "ext_duplicate_check md5 add_action senv msgctx result handle_s value_s
      period_n last_f =
        (0, msgctx, result,
         [Runtime_warning
            ''duplicate test: duplicate checking not available in this context''])"
    by (simp add: ext_duplicate_check_def sieve_action_duplicate_check_available_def)
next
  assume "smtp_open senv = None \<or> smtp_close senv = None"
  then show "act_vacation_send senv msgdata ioloop_time ctx =
          (True, [Result_warning ''vacation action has no means to send mail.''])"
    by (rule send_no_smtp)
next
  fix ok ctx' evs
  assume n: "smtp_open senv = None \<or> smtp_close senv = None"
    and c: "act_vacation_commit md5 parse senv msgdata ioloop_time ctx dupl_hash0
                = Inr (ok, ctx', evs)"
  from commit_outcome[OF c] show ok by simp
  from commit_outcome[OF c] send_no_smtp[OF n, of msgdata ioloop_time ctx']
  show "\<not> list_ex is_smtp_event evs"
    by (auto simp: commit_check_events_def commit_mark_events_def split: option.splits)
qed

theorem missing_capability_degrades_witness:
  "duplicate_check host_env_bare = None
   \<and> ext_duplicate_check id (\<lambda>res call. (0, res)) host_env_bare None []
        (Some ''h'') (Some ''v'') 60 False
      = (0, None, [],
         [Runtime_warning
            ''duplicate test: duplicate checking not available in this context''])
   \<and> smtp_open host_env_bare = None
   \<and> act_vacation_send host_env_bare example_msgdata 1000 example_ctx
      = (True, [Result_warning ''vacation action has no means to send mail.''])
   \<and> (\<exists>evs. act_vacation_commit id example_parse host_env_bare example_msgdata 1000
                example_ctx [] = Inr (True, example_ctx, evs)
            \<and> \<not> list_ex is_smtp_event evs)"
proof -
  have n: "duplicate_check host_env_bare = None" "smtp_open host_env_bare = None"
      "duplicate_mark host_env_bare = None"
    by (simp_all add: host_env_bare_def)
  have f: "return_path example_msgdata = Some ''bob@example.com''"
      "to_address example_msgdata = Some ''jane@example.org''"
      "subject example_ctx = Some ''Away''"
    by (simp_all add: example_msgdata_def example_ctx_def)
  have s: "act_vacation_send host_env_bare example_msgdata 1000 example_ctx
      = (True, [Result_warning ''vacation action has no means to send mail.''])"
    using n by (simp add: send_no_smtp)
  have c: "act_vacation_commit id example_parse host_env_bare example_msgdata 1000
      example_ctx [] = Inr (True, example_ctx,
        [Result_warning ''vacation action has no means to send mail.'',
         Result_log ''sent vacation response to <%s>''
           [Sanitized (Some ''bob@example.com'') 128]])"
    by (simp add: act_vacation_commit_def Let_def f n example_checks commit_send_def s)
  from missing_capability_degrades[of host_env_bare id "\<lambda>res call. (0, res)" None "[]"
      "Some ''h''" "Some ''v''" 60 False example_msgdata 1000 example_ctx example_parse "[]"]
    n c
  show ?thesis by simp
qed

section \<open>Properties of the duplicate test\<close>

lemma find_append_Some:
  "find P xs = Some x \<Longrightarrow> find P (xs @ ys) = Some x"
  by (induction xs) (auto split: if_splits)

lemma find_append_None:
  "find P xs = None \<Longrightarrow> find P (xs @ ys) = find P ys"
  by (induction xs) (auto split: if_splits)

text \<open>What the cache block stores is found by the lookup.\<close>

lemma lookup_cache_same:
  "ext_duplicate_lookup rctx h l = None \<Longrightarrow>
   ext_duplicate_lookup (ext_duplicate_cache rctx h l d) h l = Some d"
  by (auto simp: ext_duplicate_lookup_def ext_duplicate_cache_def find_append_None
        split: option.splits if_splits)

lemma lookup_new: "ext_duplicate_lookup ext_duplicate_context_new h l = None"
  by (simp add: ext_duplicate_lookup_def ext_duplicate_context_new_def split: option.splits)

text \<open>A verdict that the lookup finds is still found after any later cache block.\<close>

lemma lookup_cache_other:
  "ext_duplicate_lookup rctx h l = Some d \<Longrightarrow>
   ext_duplicate_lookup rctx h' l' = None \<Longrightarrow>
   ext_duplicate_lookup (ext_duplicate_cache rctx h' l' d') h l = Some d"
  by (auto simp: ext_duplicate_lookup_def ext_duplicate_cache_def find_append_Some
        split: option.splits if_splits)

text \<open>A call that finds a verdict returns it and touches nothing.\<close>

lemma check_hit:
  assumes "sieve_action_duplicate_check_available senv"
    and "ext_duplicate_lookup rctx h l = Some d"
  shows "ext_duplicate_check md5 add_action senv (Some rctx) result h (Some v) p l =
           ((if d then 1 else 0), Some rctx, result, [])"
  using assms by (simp add: ext_duplicate_check_def)

lemma check_null_value:
  "ext_duplicate_check md5 add_action senv msgctx result h None p l = (r, msgctx', result', evs)
   \<Longrightarrow> r = 0 \<and> msgctx' = msgctx \<and> result' = result \<and> \<not> list_ex is_duplicate_check evs"
  by (auto simp: ext_duplicate_check_def split: if_splits)

text \<open>A call that returns a verdict leaves it where the lookup finds it.\<close>

lemma check_caches:
  assumes "sieve_action_duplicate_check_available senv"
    and "ext_duplicate_check md5 add_action senv msgctx result h (Some v) p l =
           (r, msgctx', result', evs)"
    and "0 \<le> r"
  shows "\<exists>rctx'. msgctx' = Some rctx' \<and> (r = 0 \<or> r = 1)
           \<and> ext_duplicate_lookup rctx' h l = Some (r = 1)"
proof (cases "case msgctx of None \<Rightarrow> None | Some c \<Rightarrow> ext_duplicate_lookup c h l")
  case (Some d)
  then obtain c where c: "msgctx = Some c" "ext_duplicate_lookup c h l = Some d"
    by (cases msgctx) auto
  with assms check_hit[OF assms(1) c(2), of md5 add_action result v p] show ?thesis
    by auto
next
  case None
  let ?rctx = "case msgctx of None \<Rightarrow> ext_duplicate_context_new | Some c \<Rightarrow> c"
  have miss: "ext_duplicate_lookup ?rctx h l = None"
    using None lookup_new by (cases msgctx) auto
  from assms None obtain dup where
    "msgctx' = Some (ext_duplicate_cache ?rctx h l dup)" "r = (if dup then 1 else 0)"
    by (auto simp: ext_duplicate_check_def Let_def split: prod.splits if_splits)
  with lookup_cache_same[OF miss] show ?thesis by auto
qed

text \<open>No call removes or changes a verdict that the lookup finds.\<close>

lemma check_keeps:
  assumes "ext_duplicate_lookup rctx h l = Some d"
    and "ext_duplicate_check md5 add_action senv (Some rctx) result h' v' p' l' =
           (r, msgctx', result', evs)"
  shows "\<exists>rctx'. msgctx' = Some rctx' \<and> ext_duplicate_lookup rctx' h l = Some d"
proof (cases "sieve_action_duplicate_check_available senv \<and> v' \<noteq> None
              \<and> ext_duplicate_lookup rctx h' l' = None")
  case False
  with assms show ?thesis
    by (auto simp: ext_duplicate_check_def Let_def split: option.splits if_splits)
next
  case True
  with assms(2) have "msgctx' = Some rctx
      \<or> (\<exists>dup. msgctx' = Some (ext_duplicate_cache rctx h' l' dup))"
    by (auto simp: ext_duplicate_check_def Let_def split: prod.splits if_splits)
  with lookup_cache_other[OF assms(1)] True assms(1) show ?thesis by auto
qed

lemma calls_keep:
  assumes "ext_duplicate_lookup rctx h l = Some d"
    and "ext_duplicate_check_calls md5 add_action senv calls (Some rctx, result) =
           (msgctx', result')"
  shows "\<exists>rctx'. msgctx' = Some rctx' \<and> ext_duplicate_lookup rctx' h l = Some d"
  using assms
proof (induction calls arbitrary: rctx result)
  case Nil
  then show ?case by auto
next
  case (Cons call calls)
  obtain h' v' p' l' where call: "call = (h', v', p', l')" by (cases call)
  obtain r m1 r1 e1 where
    c1: "ext_duplicate_check md5 add_action senv (Some rctx) result h' v' p' l' = (r, m1, r1, e1)"
    by (cases "ext_duplicate_check md5 add_action senv (Some rctx) result h' v' p' l'")
  from check_keeps[OF Cons.prems(1) c1] obtain rctx1 where
    k: "m1 = Some rctx1" "ext_duplicate_lookup rctx1 h l = Some d" by auto
  from Cons.prems(2) call c1 k have
    "ext_duplicate_check_calls md5 add_action senv calls (Some rctx1, r1) = (msgctx', result')"
    by simp
  from Cons.IH[OF k(2) this] show ?case .
qed

text \<open>The store queries of one call.\<close>

lemma check_no_store:
  assumes "\<not> sieve_action_duplicate_check_available senv"
  shows "ext_duplicate_check md5 add_action senv msgctx result h v p l =
           (0, msgctx, result,
            [Runtime_warning
               (''duplicate test: '' @ ''duplicate checking not available in this context'')])"
  using assms by (simp add: ext_duplicate_check_def)

lemma check_miss:
  assumes "duplicate_check senv = Some chk" "duplicate_mark senv \<noteq> None"
    and "(case msgctx of None \<Rightarrow> None | Some c \<Rightarrow> ext_duplicate_lookup c h l) = None"
    and "ext_duplicate_check md5 add_action senv msgctx result h (Some v) p l =
           (r, msgctx', result', evs)"
  shows "evs = Duplicate_check (ext_duplicate_hash md5 h v l) (username senv) #
               (if l \<and> \<not> chk (ext_duplicate_hash md5 h v l) (username senv)
                then [Duplicate_check (ext_duplicate_hash md5 h v False) (username senv)]
                else [])"
    and "0 \<le> r \<Longrightarrow>
           r = (if chk (ext_duplicate_hash md5 h v l) (username senv) then 1 else 0)"
  using assms
  by (auto simp: ext_duplicate_check_def sieve_action_duplicate_check_available_def
        sieve_action_duplicate_check_def Let_def split: prod.splits if_splits)

lemma check_avail_events:
  assumes "sieve_action_duplicate_check_available senv"
    and "ext_duplicate_lookup rctx h l = Some d"
    and "ext_duplicate_check md5 add_action senv (Some rctx) result h v' p' l =
           (r', msgctx', result', evs)"
  shows "evs = [] \<and> msgctx' = Some rctx \<and> result' = result
         \<and> (v' \<noteq> None \<longrightarrow> r' = (if d then 1 else 0))"
  using assms by (cases v') (auto simp: ext_duplicate_check_def)

text \<open>
  Two tests of one message on the example host, whose store knows no duplicate: first
  with \<open>:last\<close>, then without, both with the handle \<open>h\<close>.
\<close>

lemma example_duplicate_calls:
  "ext_duplicate_check id (\<lambda>res call. (0, res)) host_env None [] (Some ''h'') (Some ''v'') 60 True
     = (0, Some \<lparr> handles = Some [\<lparr> h_handle = ''h'', h_last = True, h_duplicate = False \<rparr>],
                  nohandle_duplicate = False, nohandle_checked = False \<rparr>, [],
        [Duplicate_check ''sieve duplicate0h-hv'' (Some ''jane''),
         Duplicate_check ''sieve duplicate+h-hv'' (Some ''jane'')])"
  "ext_duplicate_check id (\<lambda>res call. (0, res)) host_env
       (Some \<lparr> handles = Some [\<lparr> h_handle = ''h'', h_last = True, h_duplicate = False \<rparr>],
               nohandle_duplicate = False, nohandle_checked = False \<rparr>) []
       (Some ''h'') (Some ''v'') 60 False
     = (0, Some \<lparr> handles = Some [\<lparr> h_handle = ''h'', h_last = True, h_duplicate = False \<rparr>,
                                  \<lparr> h_handle = ''h'', h_last = False, h_duplicate = False \<rparr>],
                  nohandle_duplicate = False, nohandle_checked = False \<rparr>, [],
        [Duplicate_check ''sieve duplicate+h-hv'' (Some ''jane'')])"
  by (simp_all add: ext_duplicate_check_def sieve_action_duplicate_check_available_def
        sieve_action_duplicate_check_def host_env_def ext_duplicate_hash_def Let_def
        ext_duplicate_context_new_def ext_duplicate_cache_def ext_duplicate_lookup_def)

text \<open>
  On the host whose store knows every digest: a test with a value, then the same test
  for a message that has no value to test.
\<close>

lemma example_duplicate_null_value:
  "ext_duplicate_check id (\<lambda>res call. (0, res)) host_env_seen None []
       (Some ''h'') (Some ''v'') 60 False
     = (1, Some \<lparr> handles = Some [\<lparr> h_handle = ''h'', h_last = False, h_duplicate = True \<rparr>],
                  nohandle_duplicate = False, nohandle_checked = False \<rparr>, [],
        [Duplicate_check ''sieve duplicate+h-hv'' (Some ''jane'')])"
  "ext_duplicate_check id (\<lambda>res call. (0, res)) host_env_seen
       (Some \<lparr> handles = Some [\<lparr> h_handle = ''h'', h_last = False, h_duplicate = True \<rparr>],
               nohandle_duplicate = False, nohandle_checked = False \<rparr>) []
       (Some ''h'') None 60 False
     = (0, Some \<lparr> handles = Some [\<lparr> h_handle = ''h'', h_last = False, h_duplicate = True \<rparr>],
                  nohandle_duplicate = False, nohandle_checked = False \<rparr>, [], [])"
  by (simp_all add: ext_duplicate_check_def sieve_action_duplicate_check_available_def
        sieve_action_duplicate_check_def host_env_seen_def host_env_def
        ext_duplicate_hash_def Let_def ext_duplicate_context_new_def
        ext_duplicate_cache_def ext_duplicate_lookup_def)

lemma example_no_store:
  "ext_duplicate_check id (\<lambda>res call. (0, res)) host_env_bare None []
       (Some ''h'') (Some ''v'') 60 True
     = (0, None, [],
        [Runtime_warning
           (''duplicate test: '' @ ''duplicate checking not available in this context'')])"
  by (simp add: ext_duplicate_check_def sieve_action_duplicate_check_available_def
        host_env_bare_def)

text \<open>
  Claim C9, as the code has it. A host without the duplicate store is never queried.
  On a host with the store, let a call with a non-\<open>NULL\<close> value find no cached verdict
  for its handle (or the no-handle case) and \<open>last\<close> flag. It queries the store exactly
  once for its digest, and exactly once more, for the entry without \<open>:last\<close>, when
  \<open>last\<close> is set and the first query finds no duplicate. If it returns a verdict (0 or
  1, not the \<open>-1\<close> of a failed \<open>sieve_result_add_action\<close>), the verdict is the store's
  answer to the first query, and after any further calls on the same message context a
  call with an equal handle (or again without one) and the same \<open>last\<close> flag queries the
  store no more, reports nothing and leaves context and result as they are; given a
  non-\<open>NULL\<close> value it returns that verdict.
\<close>

theorem duplicate_check_cached:
  "(\<not> sieve_action_duplicate_check_available senv \<and>
      ext_duplicate_check md5 add_action senv msgctx result h w p l = (r, msgctx', result', evs)
      \<longrightarrow> \<not> list_ex is_duplicate_check evs)
   \<and> (duplicate_check senv = Some chk \<and> duplicate_mark senv \<noteq> None
      \<and> (case msgctx0 of None \<Rightarrow> None | Some c \<Rightarrow> ext_duplicate_lookup c h l) = None
      \<and> ext_duplicate_check md5 add_action senv msgctx0 result0 h (Some v) p l =
           (r1, msgctx1, result1, evs1)
      \<longrightarrow> evs1 = Duplicate_check (ext_duplicate_hash md5 h v l) (username senv) #
                 (if l \<and> \<not> chk (ext_duplicate_hash md5 h v l) (username senv)
                  then [Duplicate_check (ext_duplicate_hash md5 h v False) (username senv)]
                  else [])
          \<and> (0 \<le> r1 \<longrightarrow>
                r1 = (if chk (ext_duplicate_hash md5 h v l) (username senv) then 1 else 0)
                \<and> (ext_duplicate_check_calls md5 add_action senv calls (msgctx1, result1) =
                     (msgctx2, result2)
                   \<and> ext_duplicate_check md5 add_action senv msgctx2 result2 h v' p' l =
                       (r3, msgctx3, result3, evs3)
                   \<longrightarrow> evs3 = [] \<and> msgctx3 = msgctx2 \<and> result3 = result2
                       \<and> (v' \<noteq> None \<longrightarrow> r3 = r1))))"
proof (intro conjI impI)
  assume "\<not> sieve_action_duplicate_check_available senv \<and>
      ext_duplicate_check md5 add_action senv msgctx result h w p l = (r, msgctx', result', evs)"
  then show "\<not> list_ex is_duplicate_check evs"
    using check_no_store[of senv md5 add_action msgctx result h w p l] by auto
next
  assume a: "duplicate_check senv = Some chk \<and> duplicate_mark senv \<noteq> None
      \<and> (case msgctx0 of None \<Rightarrow> None | Some c \<Rightarrow> ext_duplicate_lookup c h l) = None
      \<and> ext_duplicate_check md5 add_action senv msgctx0 result0 h (Some v) p l =
           (r1, msgctx1, result1, evs1)"
  then have chk: "duplicate_check senv = Some chk" and mark: "duplicate_mark senv \<noteq> None"
    and miss: "(case msgctx0 of None \<Rightarrow> None | Some c \<Rightarrow> ext_duplicate_lookup c h l) = None"
    and first: "ext_duplicate_check md5 add_action senv msgctx0 result0 h (Some v) p l =
           (r1, msgctx1, result1, evs1)"
    by simp_all
  show "evs1 = Duplicate_check (ext_duplicate_hash md5 h v l) (username senv) #
                 (if l \<and> \<not> chk (ext_duplicate_hash md5 h v l) (username senv)
                  then [Duplicate_check (ext_duplicate_hash md5 h v False) (username senv)]
                  else [])"
    by (rule check_miss(1)[OF chk mark miss first])
  assume r: "0 \<le> r1"
  show "r1 = (if chk (ext_duplicate_hash md5 h v l) (username senv) then 1 else 0)"
    by (rule check_miss(2)[OF chk mark miss first r])
  assume b: "ext_duplicate_check_calls md5 add_action senv calls (msgctx1, result1) =
                     (msgctx2, result2)
                   \<and> ext_duplicate_check md5 add_action senv msgctx2 result2 h v' p' l =
                       (r3, msgctx3, result3, evs3)"
  from chk mark have avail: "sieve_action_duplicate_check_available senv"
    by (simp add: sieve_action_duplicate_check_available_def)
  from check_caches[OF avail first r] obtain rctx1 where
    c1: "msgctx1 = Some rctx1" "r1 = 0 \<or> r1 = 1"
        "ext_duplicate_lookup rctx1 h l = Some (r1 = 1)"
    by auto
  from b have between: "ext_duplicate_check_calls md5 add_action senv calls
      (Some rctx1, result1) = (msgctx2, result2)"
    using c1(1) by simp
  from calls_keep[OF c1(3) between] obtain rctx2 where
    c2: "msgctx2 = Some rctx2" "ext_duplicate_lookup rctx2 h l = Some (r1 = 1)"
    by auto
  from b c2(1) have later: "ext_duplicate_check md5 add_action senv (Some rctx2) result2 h v'
      p' l = (r3, msgctx3, result3, evs3)" by simp
  from check_avail_events[OF avail c2(2) later] c1(2) c2(1)
  have e: "evs3 = [] \<and> msgctx3 = msgctx2 \<and> result3 = result2 \<and> (v' \<noteq> None \<longrightarrow> r3 = r1)"
    by auto
  from e show "evs3 = []" by simp
  from e show "msgctx3 = msgctx2" by simp
  from e show "result3 = result2" by simp
  assume "v' \<noteq> None"
  with e show "r3 = r1" by simp
qed


theorem duplicate_check_cached_witness:
  "duplicate_check host_env = Some (\<lambda>h u. False) \<and> duplicate_mark host_env \<noteq> None
   \<and> ext_duplicate_check id (\<lambda>res call. (0, res)) host_env None []
        (Some ''h'') (Some ''v'') 60 True
      = (0, Some \<lparr> handles = Some [\<lparr> h_handle = ''h'', h_last = True, h_duplicate = False \<rparr>],
                   nohandle_duplicate = False, nohandle_checked = False \<rparr>, [],
         [Duplicate_check (ext_duplicate_hash id (Some ''h'') ''v'' True) (Some ''jane''),
          Duplicate_check (ext_duplicate_hash id (Some ''h'') ''v'' False) (Some ''jane'')])
   \<and> ext_duplicate_check_calls id (\<lambda>res call. (0, res)) host_env
        [(Some ''h'', Some ''v'', 60, False)]
        (Some \<lparr> handles = Some [\<lparr> h_handle = ''h'', h_last = True, h_duplicate = False \<rparr>],
                nohandle_duplicate = False, nohandle_checked = False \<rparr>, [])
      = (Some \<lparr> handles = Some [\<lparr> h_handle = ''h'', h_last = True, h_duplicate = False \<rparr>,
                                 \<lparr> h_handle = ''h'', h_last = False, h_duplicate = False \<rparr>],
                 nohandle_duplicate = False, nohandle_checked = False \<rparr>, [])
   \<and> ext_duplicate_check id (\<lambda>res call. (0, res)) host_env
        (Some \<lparr> handles = Some [\<lparr> h_handle = ''h'', h_last = True, h_duplicate = False \<rparr>,
                                \<lparr> h_handle = ''h'', h_last = False, h_duplicate = False \<rparr>],
                nohandle_duplicate = False, nohandle_checked = False \<rparr>) []
        (Some ''h'') (Some ''w'') 30 True
      = (0, Some \<lparr> handles = Some [\<lparr> h_handle = ''h'', h_last = True, h_duplicate = False \<rparr>,
                                   \<lparr> h_handle = ''h'', h_last = False, h_duplicate = False \<rparr>],
                   nohandle_duplicate = False, nohandle_checked = False \<rparr>, [], [])
   \<and> \<not> sieve_action_duplicate_check_available host_env_bare
   \<and> (\<exists>evs. ext_duplicate_check id (\<lambda>res call. (0, res)) host_env_bare None []
                (Some ''h'') (Some ''v'') 60 True = (0, None, [], evs)
            \<and> \<not> list_ex is_duplicate_check evs)"
proof -
  let ?add = "\<lambda>(res :: sieve_result) (call :: add_action_call). (0 :: int, res)"
  let ?c1 = "\<lparr> handles = Some [\<lparr> h_handle = ''h'', h_last = True, h_duplicate = False \<rparr>],
               nohandle_duplicate = False, nohandle_checked = False \<rparr>"
  let ?c2 = "\<lparr> handles = Some [\<lparr> h_handle = ''h'', h_last = True, h_duplicate = False \<rparr>,
                               \<lparr> h_handle = ''h'', h_last = False, h_duplicate = False \<rparr>],
               nohandle_duplicate = False, nohandle_checked = False \<rparr>"
  let ?w = "[Runtime_warning
            (''duplicate test: '' @ ''duplicate checking not available in this context'')]"
  have chk: "duplicate_check host_env = Some (\<lambda>h u. False)"
    and mark: "duplicate_mark host_env \<noteq> None"
    by (simp_all add: host_env_def)
  have bare: "\<not> sieve_action_duplicate_check_available host_env_bare"
    by (simp add: sieve_action_duplicate_check_available_def host_env_bare_def)
  have miss: "(case None :: ext_duplicate_context option of None \<Rightarrow> None
               | Some c \<Rightarrow> ext_duplicate_lookup c (Some ''h'') True) = None"
    by simp
  have first: "ext_duplicate_check id ?add host_env None [] (Some ''h'') (Some ''v'') 60 True
      = (0, Some ?c1, [],
         [Duplicate_check (ext_duplicate_hash id (Some ''h'') ''v'' True) (Some ''jane''),
          Duplicate_check (ext_duplicate_hash id (Some ''h'') ''v'' False) (Some ''jane'')])"
    using example_duplicate_calls(1) by (simp add: ext_duplicate_hash_def)
  have between: "ext_duplicate_check_calls id ?add host_env
      [(Some ''h'', Some ''v'', 60, False)] (Some ?c1, []) = (Some ?c2, [])"
    by (simp add: example_duplicate_calls(2))
  obtain r3 m3 res3 e3 where later:
    "ext_duplicate_check id ?add host_env (Some ?c2) [] (Some ''h'') (Some ''w'') 30 True
       = (r3, m3, res3, e3)"
    by (cases "ext_duplicate_check id ?add host_env (Some ?c2) [] (Some ''h'') (Some ''w'')
                 30 True")
  note t = duplicate_check_cached[of host_env id ?add None "[]" "Some ''h''" "Some ''v''" 60
      True 0 None "[]" ?w "\<lambda>h u. False" None "[]" "''v''" 0 "Some ?c1" "[]" _
      "[(Some ''h'', Some ''v'', 60, False)]" "Some ?c2" "[]" "Some ''w''" 30 r3 m3 res3 e3]
  from t chk mark miss first between later
  have l: "e3 = [] \<and> m3 = Some ?c2 \<and> res3 = [] \<and> r3 = 0"
    by simp
  note u = duplicate_check_cached[of host_env_bare id ?add None "[]" "Some ''h''"
      "Some ''v''" 60 True 0 None "[]" ?w]
  from u bare example_no_store have n: "\<not> list_ex is_duplicate_check ?w"
    by blast
  with example_no_store
  have m: "\<exists>evs. ext_duplicate_check id ?add host_env_bare None []
                (Some ''h'') (Some ''v'') 60 True = (0, None, [], evs)
            \<and> \<not> list_ex is_duplicate_check evs"
    by blast
  from chk mark first between later l bare m show ?thesis by simp
qed

text \<open>
  The claim as stated fails. On a store that knows no duplicate, the first test below
  (with \<open>:last\<close>) consults the store twice, and the second test (without) consults it
  again for the digest the first one already asked about. On a store that knows every
  digest, the third test caches the verdict 1, and the fourth, with the same handle and
  flag but no value, returns 0.
\<close>

theorem duplicate_check_cached_counterexample:
  "ext_duplicate_check id (\<lambda>res call. (0, res)) host_env None [] (Some ''h'') (Some ''v'') 60 True
     = (0, Some \<lparr> handles = Some [\<lparr> h_handle = ''h'', h_last = True, h_duplicate = False \<rparr>],
                  nohandle_duplicate = False, nohandle_checked = False \<rparr>, [],
        [Duplicate_check ''sieve duplicate0h-hv'' (Some ''jane''),
         Duplicate_check ''sieve duplicate+h-hv'' (Some ''jane'')])
   \<and> ext_duplicate_check id (\<lambda>res call. (0, res)) host_env
       (Some \<lparr> handles = Some [\<lparr> h_handle = ''h'', h_last = True, h_duplicate = False \<rparr>],
               nohandle_duplicate = False, nohandle_checked = False \<rparr>) []
       (Some ''h'') (Some ''v'') 60 False
     = (0, Some \<lparr> handles = Some [\<lparr> h_handle = ''h'', h_last = True, h_duplicate = False \<rparr>,
                                  \<lparr> h_handle = ''h'', h_last = False, h_duplicate = False \<rparr>],
                  nohandle_duplicate = False, nohandle_checked = False \<rparr>, [],
        [Duplicate_check ''sieve duplicate+h-hv'' (Some ''jane'')])
   \<and> ext_duplicate_check id (\<lambda>res call. (0, res)) host_env_seen None []
       (Some ''h'') (Some ''v'') 60 False
     = (1, Some \<lparr> handles = Some [\<lparr> h_handle = ''h'', h_last = False, h_duplicate = True \<rparr>],
                  nohandle_duplicate = False, nohandle_checked = False \<rparr>, [],
        [Duplicate_check ''sieve duplicate+h-hv'' (Some ''jane'')])
   \<and> ext_duplicate_check id (\<lambda>res call. (0, res)) host_env_seen
       (Some \<lparr> handles = Some [\<lparr> h_handle = ''h'', h_last = False, h_duplicate = True \<rparr>],
               nohandle_duplicate = False, nohandle_checked = False \<rparr>) []
       (Some ''h'') None 60 False
     = (0, Some \<lparr> handles = Some [\<lparr> h_handle = ''h'', h_last = False, h_duplicate = True \<rparr>],
                  nohandle_duplicate = False, nohandle_checked = False \<rparr>, [], [])"
  using example_duplicate_calls example_duplicate_null_value by simp

section \<open>Properties of the address test\<close>

lemma addrmatch_loop_end:
  "sieve_operand_optional_read sbin a = Some (0, a1) \<Longrightarrow>
   addrmatch_optionals_loop sbin a (addrp, mtch, cmp) = Some ((addrp, mtch, cmp), a1)"
  by (subst addrmatch_optionals_loop.simps) (simp add: SIEVE_AM_OPT_defs)

lemma cmp_equals_octet: "cmp_equals i_octet_comparator a b = (a = b)"
proof -
  have "cmp_char_eq i_octet_comparator = (=)"
    by (simp add: fun_eq_iff cmp_char_eq_def)
  then show ?thesis by (simp add: cmp_equals_def list_all2_eq)
qed

lemma match_is_octet:
  "sieve_match_value is_match_type i_octet_comparator key_list v = (v \<in> set key_list)"
  by (auto simp: sieve_match_value_def cmp_equals_octet list_ex_iff)

lemma get_optionals_none:
  assumes "drop address sbin = Opr_stringlist hdrs # rest"
  shows "sieve_addrmatch_default_get_optionals sbin address opts = Some (opts, address)"
  using assms
  by (simp add: sieve_addrmatch_default_get_optionals_def sieve_operand_optional_present_def)

lemma get_optionals_empty:
  assumes "drop address sbin = Opr_optional # Opr_code 0 # rest"
  shows "sieve_addrmatch_default_get_optionals sbin address opts
           = Some (opts, Suc (Suc address))"
proof -
  from assms have d1: "drop (Suc address) sbin = Opr_code 0 # rest"
    by (rule drop_eq_Cons_Suc)
  then have "sieve_operand_optional_read sbin (Suc address) = Some (0, Suc (Suc address))"
    by (simp add: sieve_operand_optional_read_def)
  then have "addrmatch_optionals_loop sbin (Suc address) opts
      = Some (opts, Suc (Suc address))"
    by (cases opts) (simp add: addrmatch_loop_end)
  then show ?thesis using assms
    by (simp add: sieve_addrmatch_default_get_optionals_def sieve_operand_optional_present_def)
qed

lemma execute_with_opts:
  assumes "sieve_addrmatch_default_get_optionals sbin address tst_address_defaults
             = Some (tst_address_defaults, a1)"
    and "drop a1 sbin = Opr_stringlist hdrs # Opr_stringlist keys # rest"
  shows "tst_address_opcode_execute parse sbin address msgdata =
           (Some (headers_match parse (msg_mail msgdata) tst_address_defaults hdrs keys,
                  Suc (Suc a1)),
            [Stdout (''?? ADDRESS'' @ [CHR 0x0A])])"
proof -
  from assms(2) have d1: "drop (Suc a1) sbin = Opr_stringlist keys # rest"
    by (rule drop_eq_Cons_Suc)
  show ?thesis using assms d1
    by (simp add: tst_address_opcode_execute_def sieve_opr_stringlist_read_def
          sieve_match_end_def Let_def)
qed

lemma example_from_match:
  "headers_match example_parse example_mail
     (all_address_part, is_match_type, i_octet_comparator) [''from''] keys
   = (''Root@host'' \<in> set keys)"
  by (simp add: headers_match_def example_mail_def example_parse_def sieve_address_match_def
        address_part_of_def match_is_octet)

text \<open>
  Claim C1, as the code has it. When the bytecode of the address test has no optional
  operands (no block, or a block that ends at once), the test runs with the values its
  locals are initialised with: the address part \<open>:all\<close>, the match type \<open>:is\<close> and
  the comparator \<open>i;octet\<close>. A header value then matches exactly when one of its
  addresses, written \<open>local@domain\<close>, is equal to one of the keys octet for octet: the
  default match is case-sensitive.
\<close>

theorem address_test_defaults:
  assumes "drop address sbin = Opr_stringlist hdrs # Opr_stringlist keys # rest
           \<or> drop address sbin =
               Opr_optional # Opr_code 0 # Opr_stringlist hdrs # Opr_stringlist keys # rest"
  shows "tst_address_defaults = (all_address_part, is_match_type, i_octet_comparator)
     \<and> (\<exists>a. tst_address_opcode_execute parse sbin address msgdata =
           (Some (headers_match parse (msg_mail msgdata)
                    (all_address_part, is_match_type, i_octet_comparator) hdrs keys, a),
            [Stdout (''?? ADDRESS'' @ [CHR 0x0A])]))
     \<and> sieve_address_match parse all_address_part is_match_type i_octet_comparator keys h
         = (\<exists>a \<in> set (parse h). \<exists>part. address_part_of all_address_part a = Some part
                                          \<and> part \<in> set keys)"
proof (intro conjI)
  show "tst_address_defaults = (all_address_part, is_match_type, i_octet_comparator)"
    by (simp add: tst_address_defaults_def)
  from assms show "\<exists>a. tst_address_opcode_execute parse sbin address msgdata =
           (Some (headers_match parse (msg_mail msgdata)
                    (all_address_part, is_match_type, i_octet_comparator) hdrs keys, a),
            [Stdout (''?? ADDRESS'' @ [CHR 0x0A])])"
  proof
    assume d: "drop address sbin = Opr_stringlist hdrs # Opr_stringlist keys # rest"
    from execute_with_opts[OF get_optionals_none[OF d] d]
    show ?thesis by (auto simp: tst_address_defaults_def)
  next
    assume d: "drop address sbin =
               Opr_optional # Opr_code 0 # Opr_stringlist hdrs # Opr_stringlist keys # rest"
    then have "drop (Suc address) sbin =
        Opr_code 0 # Opr_stringlist hdrs # Opr_stringlist keys # rest"
      by (rule drop_eq_Cons_Suc)
    then have d2: "drop (Suc (Suc address)) sbin =
        Opr_stringlist hdrs # Opr_stringlist keys # rest"
      by (rule drop_eq_Cons_Suc)
    from execute_with_opts[OF get_optionals_empty[OF d] d2]
    show ?thesis by (auto simp: tst_address_defaults_def)
  qed
  show "sieve_address_match parse all_address_part is_match_type i_octet_comparator keys h
         = (\<exists>a \<in> set (parse h). \<exists>part. address_part_of all_address_part a = Some part
                                          \<and> part \<in> set keys)"
    by (auto simp: sieve_address_match_def list_ex_iff match_is_octet split: option.splits)
qed

theorem address_test_defaults_witness:
  "drop 0 [Opr_optional, Opr_code 0, Opr_stringlist [''from''],
           Opr_stringlist [''Root@host'']]
     = Opr_optional # Opr_code 0 # Opr_stringlist [''from'']
         # Opr_stringlist [''Root@host''] # []
   \<and> (\<exists>a. tst_address_opcode_execute example_parse
          [Opr_optional, Opr_code 0, Opr_stringlist [''from''],
           Opr_stringlist [''Root@host'']] 0 example_msgdata
        = (Some (True, a), [Stdout (''?? ADDRESS'' @ [CHR 0x0A])]))"
proof -
  have d: "drop 0 [Opr_optional, Opr_code 0, Opr_stringlist [''from''],
           Opr_stringlist [''Root@host'']]
     = Opr_optional # Opr_code 0 # Opr_stringlist [''from'']
         # Opr_stringlist [''Root@host''] # []"
    by simp
  have m: "msg_mail example_msgdata = example_mail" by (simp add: example_msgdata_def)
  from address_test_defaults[OF disjI2, OF d, of example_parse example_msgdata] d
  show ?thesis by (simp add: m example_from_match)
qed

text \<open>
  The claim as stated fails: the default comparator is not \<open>i;ascii-casemap\<close>. The
  test for the key \<open>root@host\<close> on a message from \<open>Root@host\<close> is false, where
  \<open>i;ascii-casemap\<close> would match.
\<close>

theorem address_test_defaults_counterexample:
  "tst_address_defaults \<noteq> (all_address_part, is_match_type, i_ascii_casemap_comparator)
   \<and> tst_address_opcode_execute example_parse
       [Opr_stringlist [''from''], Opr_stringlist [''root@host'']] 0 example_msgdata
     = (Some (False, 2), [Stdout (''?? ADDRESS'' @ [CHR 0x0A])])
   \<and> sieve_address_match example_parse all_address_part is_match_type
       i_ascii_casemap_comparator [''root@host''] ''Root@host''"
proof -
  have d: "drop 0 [Opr_stringlist [''from''], Opr_stringlist [''root@host'']]
      = Opr_stringlist [''from''] # Opr_stringlist [''root@host''] # []" by simp
  have m: "msg_mail example_msgdata = example_mail" by (simp add: example_msgdata_def)
  have "tst_address_opcode_execute example_parse
       [Opr_stringlist [''from''], Opr_stringlist [''root@host'']] 0 example_msgdata
     = (Some (False, 2), [Stdout (''?? ADDRESS'' @ [CHR 0x0A])])"
    using execute_with_opts[OF get_optionals_none[OF d] d, of example_parse example_msgdata]
    by (simp add: tst_address_defaults_def m example_from_match)
  moreover have "sieve_address_match example_parse all_address_part is_match_type
       i_ascii_casemap_comparator [''root@host''] ''Root@host''"
    by code_simp
  ultimately show ?thesis by (simp add: tst_address_defaults_def)
qed

end
